theory Spec2Isabelle
  imports Complex_Main "HOL-Library.Word" "HOL-Library.AList"
begin

unbundle bit_operations_syntax

section \<open>Exceptions\<close>

text \<open>
  Every exception class that the modelled functions can raise is a constructor; a function
  that can raise returns \<open>error + 'a\<close> with \<open>Inl\<close> for the exception.
\<close>

datatype error =
    TransferError
  | InvalidTransportConfigurationError
  | ValueError
  | AssertionError
  | TypeError
  | IndexError
  | KeyError
  | RuntimeError
  | AttributeError
  | MediaError

section \<open>The CAN transport: input dispatch table (pyuavcan/transport/can/_can.py)\<close>

subsection \<open>Data specifiers and constants\<close>

datatype role = CLIENT | SERVER

datatype data_specifier =
    MessageDataSpecifier (subject_id: int)
  | ServiceDataSpecifier (service_id: int) (role: role)

text \<open>
  The masks come from the module \<open>_can_id\<close>, which is not among the sources. The subject-id and
  service-id masks are parameters of the model; they are masks, hence natural numbers.
\<close>

record can_id_masks =
  SUBJECT_ID_MASK :: nat
  SERVICE_ID_MASK :: nat

text \<open>Modelled from the spec: \<open>CANID.NODE_ID_MASK\<close> of the missing module \<open>_can_id\<close>;
  "Node-ID space. 0..127; the mask is 0x7F".\<close>

definition NODE_ID_MASK :: int where
  "NODE_ID_MASK = 0x7F"

definition NUM_SUBJECTS :: "can_id_masks \<Rightarrow> int" where
  "NUM_SUBJECTS K = int (SUBJECT_ID_MASK K) + 1"

definition NUM_SERVICES :: "can_id_masks \<Rightarrow> int" where
  "NUM_SERVICES K = int (SERVICE_ID_MASK K) + 1"

definition NUM_NODE_IDS :: int where
  "NUM_NODE_IDS = NODE_ID_MASK + 1"

definition INPUT_DISPATCH_TABLE_SIZE :: "can_id_masks \<Rightarrow> int" where
  "INPUT_DISPATCH_TABLE_SIZE K = (NUM_SUBJECTS K + NUM_SERVICES K * 2) * (NUM_NODE_IDS + 1)"

subsection \<open>The index function\<close>

text \<open>
  \<open>_compute_input_dispatch_table_index\<close>. The two assertions of the source are branches that
  return \<open>AssertionError\<close>; the \<open>assert False\<close> branches for an unknown role or specifier
  class are excluded by the datatypes.
\<close>

definition compute_input_dispatch_table_index ::
    "can_id_masks \<Rightarrow> data_specifier \<Rightarrow> int option \<Rightarrow> error + int" where
  "compute_input_dispatch_table_index K data_specifier source_node_id =
     (if \<not> (case source_node_id of None \<Rightarrow> True | Some n \<Rightarrow> n < NUM_NODE_IDS)
      then Inl AssertionError
      else
        let dim1 = (case data_specifier of
                      MessageDataSpecifier s \<Rightarrow> s
                    | ServiceDataSpecifier s CLIENT \<Rightarrow> s + NUM_SUBJECTS K
                    | ServiceDataSpecifier s SERVER \<Rightarrow> s + NUM_SUBJECTS K + NUM_SERVICES K);
            dim2_cardinality = NUM_NODE_IDS + 1;
            dim2 = (case source_node_id of Some n \<Rightarrow> n | None \<Rightarrow> NUM_NODE_IDS);
            point = dim1 * dim2_cardinality + dim2
        in if 0 \<le> point \<and> point < INPUT_DISPATCH_TABLE_SIZE K then Inr point
           else Inl AssertionError)"

text \<open>The legal inputs: the identifiers in range, and a source node id in range or \<open>None\<close>.\<close>

fun legal_data_specifier :: "can_id_masks \<Rightarrow> data_specifier \<Rightarrow> bool" where
  "legal_data_specifier K (MessageDataSpecifier s) = (0 \<le> s \<and> s < NUM_SUBJECTS K)"
| "legal_data_specifier K (ServiceDataSpecifier s r) = (0 \<le> s \<and> s < NUM_SERVICES K)"

fun legal_source_node_id :: "int option \<Rightarrow> bool" where
  "legal_source_node_id None = True"
| "legal_source_node_id (Some n) = (0 \<le> n \<and> n < NUM_NODE_IDS)"

definition legal_inputs :: "can_id_masks \<Rightarrow> (data_specifier \<times> int option) set" where
  "legal_inputs K = {(ds, n). legal_data_specifier K ds \<and> legal_source_node_id n}"

definition dispatch_index :: "can_id_masks \<Rightarrow> data_specifier \<times> int option \<Rightarrow> error + int" where
  "dispatch_index K p = compute_input_dispatch_table_index K (fst p) (snd p)"

text \<open>The two coordinates of the table that the index function combines.\<close>

fun dim1_of :: "can_id_masks \<Rightarrow> data_specifier \<Rightarrow> int" where
  "dim1_of K (MessageDataSpecifier s) = s"
| "dim1_of K (ServiceDataSpecifier s CLIENT) = s + NUM_SUBJECTS K"
| "dim1_of K (ServiceDataSpecifier s SERVER) = s + NUM_SUBJECTS K + NUM_SERVICES K"

fun dim2_of :: "int option \<Rightarrow> int" where
  "dim2_of None = NUM_NODE_IDS"
| "dim2_of (Some n) = n"

section \<open>The CAN transport: state and operations\<close>

text \<open>
  The state of \<open>CANTransport\<close> that the modelled operations read and write: the local node id
  and the input dispatch table. Sessions are objects of the missing module \<open>_session\<close>; the
  model is polymorphic in them.
\<close>

record 'sess CANTransport =
  local_node_id :: "int option"
  input_dispatch_table :: "'sess option list"


text \<open>
  \<open>set_local_node_id\<close>. The call into the media (\<open>enable_automatic_retransmission\<close>) happens
  after the assignment; its outcome is the parameter \<open>media_outcome\<close> (\<open>None\<close> when the media
  returns normally, the exception otherwise). \<open>_reconfigure_acceptance_filters\<close> is a stub
  that does nothing. The result is the outcome of the call with the state it leaves behind.
\<close>

definition set_local_node_id ::
    "'sess CANTransport \<Rightarrow> error option \<Rightarrow> int \<Rightarrow> (error + unit) \<times> 'sess CANTransport" where
  "set_local_node_id self media_outcome node_id =
     (if local_node_id self = None then
        (if 0 \<le> node_id \<and> node_id \<le> NODE_ID_MASK then
           (let self' = self\<lparr>local_node_id := Some node_id\<rparr>
            in case media_outcome of
                 Some e \<Rightarrow> (Inl e, self')
               | None \<Rightarrow> (Inr (), self'))
         else (Inl ValueError, self))
      else (Inl InvalidTransportConfigurationError, self))"













section \<open>Frames and the transfer manager (uavcan/transport.py)\<close>

subsection \<open>Frame\<close>

text \<open>
  A \<open>Frame\<close>: the CAN identifier, the data bytes (a \<open>bytearray\<close>, so every element is a byte) and
  the two optional timestamps. The last data byte is the tail byte.
\<close>

record Frame =
  message_id :: int
  bytes :: "8 word list"
  ts_monotonic :: "real option"
  ts_real :: "real option"

text \<open>\<open>self.bytes[-1]\<close> as a Python integer; only read when \<open>self.bytes\<close> is not empty.\<close>

definition tail_byte :: "Frame \<Rightarrow> int" where
  "tail_byte f = uint (last (bytes f))"

type_synonym transfer_key = "int \<times> int option"

definition transfer_key :: "Frame \<Rightarrow> transfer_key" where
  "transfer_key f = (message_id f, if bytes f \<noteq> [] then Some (tail_byte f AND 0x1F) else None)"

definition toggle :: "Frame \<Rightarrow> bool" where
  "toggle f = (if bytes f \<noteq> [] then tail_byte f AND 0x20 \<noteq> 0 else False)"

definition end_of_transfer :: "Frame \<Rightarrow> bool" where
  "end_of_transfer f = (if bytes f \<noteq> [] then tail_byte f AND 0x40 \<noteq> 0 else False)"

definition start_of_transfer :: "Frame \<Rightarrow> bool" where
  "start_of_transfer f = (if bytes f \<noteq> [] then tail_byte f AND 0x80 \<noteq> 0 else False)"

subsection \<open>TransferManager\<close>

text \<open>
  The two dictionaries of the manager are association lists in insertion order, the order in
  which Python iterates over a dictionary. \<open>active_transfers\<close> is a \<open>defaultdict(list)\<close>: reading
  a missing key inserts the empty list first.
\<close>

record TransferManager =
  active_transfers :: "(transfer_key \<times> Frame list) list"
  active_transfer_timestamps :: "(transfer_key \<times> real) list"

definition TransferManager_init :: TransferManager where
  "TransferManager_init = \<lparr>active_transfers = [], active_transfer_timestamps = []\<rparr>"

text \<open>
  \<open>receive_frame\<close>. The value of \<open>time.monotonic()\<close> is the parameter \<open>now\<close>. The result is the
  returned frame list (\<open>None\<close> when nothing is returned) with the state the call leaves behind.
  The two \<open>del\<close> statements remove a key that the lines above have just stored, so they cannot
  raise.
\<close>

definition receive_frame ::
    "TransferManager \<Rightarrow> real \<Rightarrow> Frame \<Rightarrow> Frame list option \<times> TransferManager" where
  "receive_frame self now frame =
     (let key = transfer_key frame
      in if map_of (active_transfers self) key \<noteq> None \<or> start_of_transfer frame then
           (let bucket = (case map_of (active_transfers self) key of None \<Rightarrow> [] | Some fs \<Rightarrow> fs)
                           @ [frame];
                transfers = AList.update key bucket (active_transfers self);
                timestamps = AList.update key now (active_transfer_timestamps self)
            in if end_of_transfer frame then
                 (Some bucket,
                  \<lparr>active_transfers = AList.delete key transfers,
                   active_transfer_timestamps = AList.delete key timestamps\<rparr>)
               else
                 (None, \<lparr>active_transfers = transfers, active_transfer_timestamps = timestamps\<rparr>))
         else (None, self))"

text \<open>
  The loop of \<open>remove_inactive_transfers\<close> over the keys of \<open>active_transfers\<close>. The module
  supports Python 2 and Python 3 (it tests \<open>sys.version_info\<close>), and the loop differs between
  them. In Python 2 \<open>keys()\<close> is a list, a snapshot taken before the loop, and every expired
  key is removed. In Python 3 \<open>keys()\<close> is a view of the dictionary, and the step of the
  iteration that follows the first deletion raises \<open>RuntimeError\<close> (the dictionary changed size
  during iteration), after both \<open>del\<close> statements for that key have run. The flag \<open>py3\<close> selects
  the behaviour. Looking up a missing key raises \<open>KeyError\<close>. The result is the exception
  raised, if any, with the state left behind.
\<close>

fun remove_loop ::
    "bool \<Rightarrow> real \<Rightarrow> real \<Rightarrow> transfer_key list \<Rightarrow> TransferManager
       \<Rightarrow> error option \<times> TransferManager" where
  "remove_loop py3 t timeout [] self = (None, self)"
| "remove_loop py3 t timeout (key # keys) self =
     (case map_of (active_transfer_timestamps self) key of
        None \<Rightarrow> (Some KeyError, self)
      | Some stamp \<Rightarrow>
          if t - stamp > timeout then
            (if map_of (active_transfers self) key = None then (Some KeyError, self)
             else
               let self' = \<lparr>active_transfers = AList.delete key (active_transfers self),
                            active_transfer_timestamps =
                              AList.delete key (active_transfer_timestamps self)\<rparr>
               in if py3 then (Some RuntimeError, self')
                  else remove_loop py3 t timeout keys self')
          else remove_loop py3 t timeout keys self)"

definition remove_inactive_transfers ::
    "bool \<Rightarrow> TransferManager \<Rightarrow> real \<Rightarrow> real \<Rightarrow> error option \<times> TransferManager" where
  "remove_inactive_transfers py3 self now timeout =
     remove_loop py3 now timeout (map fst (active_transfers self)) self"

text \<open>
  The states of a manager that any sequence of calls of the two methods can reach from a new
  manager, whatever the frames, the clock values, the timeouts and the Python version.
\<close>

inductive_set reachable :: "TransferManager set" where
  initial: "TransferManager_init \<in> reachable"
| received: "self \<in> reachable \<Longrightarrow> snd (receive_frame self now frame) \<in> reachable"
| swept: "self \<in> reachable \<Longrightarrow> snd (remove_inactive_transfers py3 self now timeout) \<in> reachable"

definition transfer_keys :: "TransferManager \<Rightarrow> transfer_key set" where
  "transfer_keys self = fst ` set (active_transfers self)"

definition timestamp_keys :: "TransferManager \<Rightarrow> transfer_key set" where
  "timestamp_keys self = fst ` set (active_transfer_timestamps self)"

section \<open>The bit-stream codec (uavcan/transport.py)\<close>

text \<open>
  A bit string is a Python \<open>str\<close> over the characters \<open>0\<close> and \<open>1\<close>; the model writes it as a list
  of booleans, \<open>True\<close> for the character \<open>1\<close>, first character first.
\<close>

type_synonym bits = "bool list"

text \<open>\<open>int(s, 2)\<close> for a non-empty bit string: the number that the digits spell, first digit
  most significant.\<close>

definition bits_value :: "bits \<Rightarrow> nat" where
  "bits_value s = foldl (\<lambda>acc b. 2 * acc + of_bool b) 0 s"

text \<open>\<open>int(s, 2)\<close> raises \<open>ValueError\<close> on the empty string.\<close>

definition int2 :: "bits \<Rightarrow> error + nat" where
  "int2 s = (if s = [] then Inl ValueError else Inr (bits_value s))"

text \<open>The binary digits of a number without leading zeros (\<open>0\<close> has the one digit \<open>0\<close>), and
  \<open>format(n, "0<w>b")\<close>: the digits, filled with zeros on the left up to width \<open>w\<close>.\<close>

fun bin_digits :: "nat \<Rightarrow> bits" where
  "bin_digits n = (if n < 2 then [n = 1] else bin_digits (n div 2) @ [odd n])"

declare bin_digits.simps [simp del]

definition format_b :: "nat \<Rightarrow> nat \<Rightarrow> bits" where
  "format_b n w = replicate (w - length (bin_digits n)) False @ bin_digits n"


definition bits_from_bytes :: "8 word list \<Rightarrow> bits" where
  "bits_from_bytes s = concat (map (\<lambda>c. format_b (unat c) 8) s)"





section \<open>Array values (uavcan/transport.py)\<close>

subsection \<open>Type descriptors\<close>

text \<open>
  Modelled from the spec: the type descriptors of the missing module \<open>uavcan.dsdl\<close> ("A value
  describing one of: Void(bitlen), Primitive(kind, bitlen, cast-mode, value-range),
  Array(mode, value-type, max-size), Compound(...)"). Void and primitive descriptors carry the
  attribute \<open>bitlen\<close>; array and compound descriptors do not. A compound descriptor is
  represented by its full name.
\<close>

datatype prim_kind = KIND_BOOLEAN | KIND_UNSIGNED_INT | KIND_SIGNED_INT | KIND_FLOAT

datatype cast_mode = CAST_MODE_SATURATED | CAST_MODE_TRUNCATED

datatype array_mode = MODE_STATIC | MODE_DYNAMIC

datatype dsdl_type =
    VoidType nat
  | PrimitiveType prim_kind nat cast_mode
  | ArrayType dsdl_type array_mode nat
  | CompoundType string

text \<open>\<open>getattr(value_type, "bitlen", 0)\<close>.\<close>

fun getattr_bitlen :: "dsdl_type \<Rightarrow> nat" where
  "getattr_bitlen (VoidType b) = b"
| "getattr_bitlen (PrimitiveType k b c) = b"
| "getattr_bitlen (ArrayType t m n) = 0"
| "getattr_bitlen (CompoundType name) = 0"

subsection \<open>The elements of an array\<close>

text \<open>
  The elements of an array value are value objects of any class (\<open>PrimitiveValue\<close>,
  \<open>ArrayValue\<close>, \<open>CompoundValue\<close>); the array calls their constructor and their methods
  \<open>_pack\<close> and \<open>_unpack\<close>, each of which can raise. The model of the array is polymorphic in
  the element objects and takes these three operations as parameters. \<open>_unpack\<close> changes the
  element and returns the rest of the stream.

  \<open>math.log\<close> is a floating-point function; \<open>ceil_log2 n\<close> stands for
  \<open>int(math.ceil(math.log(n, 2)))\<close> at \<open>n \<ge> 1\<close> and is a parameter as well.
\<close>

record 'item element_ops =
  new_item :: "dsdl_type \<Rightarrow> error + 'item"
  item_pack :: "'item \<Rightarrow> error + bits"
  item_unpack :: "'item \<Rightarrow> bits \<Rightarrow> error + ('item \<times> bits)"
  ceil_log2 :: "nat \<Rightarrow> nat"

text \<open>
  \<open>self.__item_ctor()\<close>. The constructor is chosen by the class of the element type. For an
  array element type it is \<open>functools.partial(ArrayValue, value_type)\<close>, and calling it without
  the required argument \<open>_tao\<close> raises \<open>TypeError\<close>; for a void element type no constructor is
  set and the attribute lookup raises \<open>AttributeError\<close>.
\<close>

fun item_ctor :: "'item element_ops \<Rightarrow> dsdl_type \<Rightarrow> error + 'item" where
  "item_ctor ops (PrimitiveType k b c) = new_item ops (PrimitiveType k b c)"
| "item_ctor ops (ArrayType t m n) = Inl TypeError"
| "item_ctor ops (CompoundType name) = new_item ops (CompoundType name)"
| "item_ctor ops (VoidType b) = Inl AttributeError"

subsection \<open>ArrayValue\<close>

text \<open>An array value: the three attributes of its array type descriptor, the flag \<open>_tao\<close> and
  the items.\<close>

record 'item ArrayValue =
  value_type :: dsdl_type
  mode :: array_mode
  max_size :: nat
  tao :: bool
  items :: "'item list"

text \<open>\<open>ArrayValue.__init__\<close>; \<open>tao_arg\<close> is the argument \<open>_tao\<close> passed by the enclosing context.\<close>

definition ArrayValue_init ::
    "'item element_ops \<Rightarrow> dsdl_type \<Rightarrow> array_mode \<Rightarrow> nat \<Rightarrow> bool \<Rightarrow> error + 'item ArrayValue" where
  "ArrayValue_init ops vt m n tao_arg =
     (let value_bitlen = getattr_bitlen vt;
          self = \<lparr>value_type = vt, mode = m, max_size = n,
                  tao = (if value_bitlen \<ge> 8 then tao_arg else False), items = []\<rparr>
      in if m = MODE_STATIC then
           (if n = 0 then Inr self
            else case item_ctor ops vt of
                   Inl e \<Rightarrow> Inl e
                 | Inr item \<Rightarrow> Inr (self\<lparr>items := replicate n item\<rparr>))
         else Inr self)"

text \<open>\<open>"".join(i._pack() for i in xs)\<close>: the first element that raises ends the join.\<close>

fun join_packs :: "('item \<Rightarrow> error + bits) \<Rightarrow> 'item list \<Rightarrow> error + bits" where
  "join_packs p [] = Inr []"
| "join_packs p (x # xs) =
     (case p x of
        Inl e \<Rightarrow> Inl e
      | Inr b \<Rightarrow> (case join_packs p xs of Inl e \<Rightarrow> Inl e | Inr bs \<Rightarrow> Inr (b @ bs)))"

text \<open>\<open>int(math.ceil(math.log(max_size, 2))) or 1\<close>; \<open>math.log\<close> raises \<open>ValueError\<close> at 0.\<close>

definition count_width :: "'item element_ops \<Rightarrow> nat \<Rightarrow> error + nat" where
  "count_width ops n =
     (if n = 0 then Inl ValueError
      else Inr (if ceil_log2 ops n = 0 then 1 else ceil_log2 ops n))"

text \<open>The third branch of \<open>_pack\<close>: the count of the items in \<open>count_width\<close> bits, then the
  items.\<close>

definition pack_with_count :: "'item element_ops \<Rightarrow> 'item ArrayValue \<Rightarrow> error + bits" where
  "pack_with_count ops self =
     (case count_width ops (max_size self) of
        Inl e \<Rightarrow> Inl e
      | Inr w \<Rightarrow>
          (case join_packs (item_pack ops) (items self) of
             Inl e \<Rightarrow> Inl e
           | Inr bs \<Rightarrow> Inr (format_b (length (items self)) w @ bs)))"

definition ArrayValue_pack :: "'item element_ops \<Rightarrow> 'item ArrayValue \<Rightarrow> error + bits" where
  "ArrayValue_pack ops self =
     (if mode self = MODE_STATIC then
        (case join_packs (item_pack ops) (items self) of
           Inl e \<Rightarrow> Inl e
         | Inr bs \<Rightarrow>
             if length (items self) < max_size self then
               (case item_ctor ops (value_type self) of
                  Inl e \<Rightarrow> Inl e
                | Inr empty_item \<Rightarrow>
                    (case join_packs (item_pack ops)
                            (replicate (max_size self - length (items self)) empty_item) of
                       Inl e \<Rightarrow> Inl e
                     | Inr pad \<Rightarrow> Inr (bs @ pad)))
             else Inr bs)
      else if tao self then join_packs (item_pack ops) (items self)
      else pack_with_count ops self)"

text \<open>The loop of the static branch of \<open>_unpack\<close>: \<open>self.__items[i]._unpack(stream)\<close> for
  \<open>i\<close> in \<open>range(max_size)\<close>; a missing item raises \<open>IndexError\<close>.\<close>

fun unpack_static ::
    "('item \<Rightarrow> bits \<Rightarrow> error + ('item \<times> bits)) \<Rightarrow> 'item list \<Rightarrow> nat \<Rightarrow> bits
       \<Rightarrow> error + ('item list \<times> bits)" where
  "unpack_static u xs 0 stream = Inr (xs, stream)"
| "unpack_static u [] (Suc n) stream = Inl IndexError"
| "unpack_static u (x # xs) (Suc n) stream =
     (case u x stream of
        Inl e \<Rightarrow> Inl e
      | Inr (x', rest) \<Rightarrow>
          (case unpack_static u xs n rest of
             Inl e \<Rightarrow> Inl e
           | Inr (xs', rest') \<Rightarrow> Inr (x' # xs', rest')))"

text \<open>The loop of the counted branch: \<open>count\<close> times, a new item is built, unpacked from the
  stream and appended.\<close>

fun unpack_counted ::
    "'item element_ops \<Rightarrow> dsdl_type \<Rightarrow> nat \<Rightarrow> bits \<Rightarrow> error + ('item list \<times> bits)" where
  "unpack_counted ops vt 0 stream = Inr ([], stream)"
| "unpack_counted ops vt (Suc n) stream =
     (case item_ctor ops vt of
        Inl e \<Rightarrow> Inl e
      | Inr item \<Rightarrow>
          (case item_unpack ops item stream of
             Inl e \<Rightarrow> Inl e
           | Inr (item', rest) \<Rightarrow>
               (case unpack_counted ops vt n rest of
                  Inl e \<Rightarrow> Inl e
                | Inr (its, rest') \<Rightarrow> Inr (item' # its, rest'))))"

text \<open>
  The loop of the tail-array branch: \<open>while len(stream) >= 8\<close> a new item is built, unpacked
  and appended. An element whose \<open>_unpack\<close> consumes nothing would keep the loop running, so
  the loop is a partial function: \<open>None\<close> when it does not return.
\<close>

partial_function (option) unpack_tao ::
    "'item element_ops \<Rightarrow> dsdl_type \<Rightarrow> 'item list \<Rightarrow> bits \<Rightarrow> (error + 'item list) option" where
  "unpack_tao ops vt acc stream =
     (if length stream \<ge> 8 then
        (case item_ctor ops vt of
           Inl e \<Rightarrow> Some (Inl e)
         | Inr item \<Rightarrow>
             (case item_unpack ops item stream of
                Inl e \<Rightarrow> Some (Inl e)
              | Inr (item', rest) \<Rightarrow> unpack_tao ops vt (acc @ [item']) rest))
      else Some (Inr acc))"

text \<open>The third branch of \<open>_unpack\<close>: the items are cleared, the count is read from the first
  \<open>count_width\<close> bits (\<open>int\<close> raises \<open>ValueError\<close> on an empty slice), and that many items are
  unpacked from the bits that follow.\<close>

definition unpack_with_count ::
    "'item element_ops \<Rightarrow> 'item ArrayValue \<Rightarrow> bits \<Rightarrow> error + ('item ArrayValue \<times> bits)" where
  "unpack_with_count ops self stream =
     (case count_width ops (max_size self) of
        Inl e \<Rightarrow> Inl e
      | Inr w \<Rightarrow>
          (case int2 (take w stream) of
             Inl e \<Rightarrow> Inl e
           | Inr count \<Rightarrow>
               (case unpack_counted ops (value_type self) count (drop w stream) of
                  Inl e \<Rightarrow> Inl e
                | Inr (its, rest) \<Rightarrow> Inr (self\<lparr>items := its\<rparr>, rest))))"

text \<open>\<open>ArrayValue._unpack\<close>: the array after the call and the rest of the stream, \<open>None\<close> when
  the call does not return.\<close>

definition ArrayValue_unpack ::
    "'item element_ops \<Rightarrow> 'item ArrayValue \<Rightarrow> bits \<Rightarrow> (error + ('item ArrayValue \<times> bits)) option" where
  "ArrayValue_unpack ops self stream =
     (if mode self = MODE_STATIC then
        Some (case unpack_static (item_unpack ops) (items self) (max_size self) stream of
                Inl e \<Rightarrow> Inl e
              | Inr (its, rest) \<Rightarrow> Inr (self\<lparr>items := its\<rparr>, rest))
      else if tao self then
        (case unpack_tao ops (value_type self) [] stream of
           None \<Rightarrow> None
         | Some (Inl e) \<Rightarrow> Some (Inl e)
         | Some (Inr its) \<Rightarrow> Some (Inr (self\<lparr>items := its\<rparr>, [])))
      else Some (unpack_with_count ops self stream))"

text \<open>
  An instance of the element operations, for arrays of 1-bit booleans: an element is its bit
  string; a new element holds the bit 0, packs as that bit string and unpacks by taking one bit
  from the stream (\<open>ValueError\<close> when the stream is empty). The logarithm is exact: the
  ceiling of the binary logarithm of \<open>n \<ge> 1\<close> is the number of digits of \<open>n - 1\<close>, and 0 at 1.
\<close>

definition bool_element_ops :: "bits element_ops" where
  "bool_element_ops =
     \<lparr>new_item = (\<lambda>t. Inr [False]),
      item_pack = (\<lambda>b. Inr b),
      item_unpack = (\<lambda>b stream. if stream = [] then Inl ValueError
                                  else Inr ([hd stream], tl stream)),
      ceil_log2 = (\<lambda>n. if n \<le> 1 then 0 else length (bin_digits (n - 1)))\<rparr>"

section \<open>Transfers (uavcan/transport.py)\<close>

subsection \<open>The CRC and the data type registry\<close>

text \<open>
  Modelled from the spec: \<open>common.crc16_from_bytes\<close> of the missing module
  \<open>uavcan.dsdl.common\<close> ("CRC-16. Polynomial 0x1021, initial seed = data-type base_crc, no
  reflection, no final XOR. Bytes are fed MSB-first"). The register is 16 bits wide; each
  byte is added to its high half and followed by eight shift steps.
\<close>

definition crc16_step :: "16 word \<Rightarrow> 16 word" where
  "crc16_step crc = (if bit crc 15 then push_bit 1 crc XOR 0x1021 else push_bit 1 crc)"

definition crc16_add_byte :: "16 word \<Rightarrow> 8 word \<Rightarrow> 16 word" where
  "crc16_add_byte crc byte = (crc16_step ^^ 8) (crc XOR push_bit 8 (ucast byte))"

definition crc16_from_bytes :: "8 word list \<Rightarrow> 16 word \<Rightarrow> int" where
  "crc16_from_bytes bs initial = uint (foldl crc16_add_byte initial bs)"

text \<open>
  Modelled from the spec: what \<open>from_frames\<close> reads of a compound type descriptor of the
  missing module \<open>uavcan.dsdl\<close>: the data type id, the CRC seed ("base-crc (16-bit CRC-16 seed
  for transfers)") and the signature. The registry \<open>uavcan.DATATYPES\<close>, a dictionary from
  \<open>(data_type_id, kind)\<close> to descriptors, is a parameter of the functions that read it.
\<close>

datatype compound_kind = KIND_SERVICE | KIND_MESSAGE

record data_type_descriptor =
  full_name :: string
  default_dtid :: int
  base_crc :: "16 word"
  get_data_type_signature :: int

type_synonym registry = "int \<times> compound_kind \<Rightarrow> data_type_descriptor option"

subsection \<open>Transfer\<close>

text \<open>
  The attribute \<open>payload\<close> holds the serialized bytes after \<open>__init__\<close> and the deserialized
  value object after \<open>from_frames\<close>, or \<open>None\<close>. The model is polymorphic in the value objects.
\<close>

datatype 'v payload = Bytes "8 word list" | Value 'v

record 'v Transfer =
  transfer_priority :: int
  transfer_id :: int
  source_node_id :: "int option"
  dest_node_id :: "int option"
  data_type_signature :: "int option"
  request_not_response :: bool
  service_not_message :: bool
  discriminator :: "int option"
  transfer_ts_monotonic :: "real option"
  transfer_ts_real :: "real option"
  payload :: "'v payload option"
  data_type_id :: "int option"
  data_type_crc :: "16 word option"
  is_complete :: bool

text \<open>A transfer as \<open>Transfer()\<close> builds it, without a payload.\<close>

definition Transfer_init :: "'v Transfer" where
  "Transfer_init =
     \<lparr>transfer_priority = 31, transfer_id = 0, source_node_id = Some 0, dest_node_id = None,
      data_type_signature = None, request_not_response = False, service_not_message = False,
      discriminator = None, transfer_ts_monotonic = None, transfer_ts_real = None,
      payload = None, data_type_id = None, data_type_crc = None, is_complete = False\<rparr>"

text \<open>
  The getter of the property \<open>message_id\<close>. \<open>x << n\<close> is \<open>push_bit n x\<close>, \<open>x >> n\<close> is
  \<open>drop_bit n x\<close>. A failed \<open>assert\<close> is \<open>AssertionError\<close>; comparing or shifting \<open>None\<close>
  raises \<open>TypeError\<close>. \<open>self.source_node_id or 0\<close> is 0 for \<open>None\<close>; \<open>None == 0\<close> is false.
\<close>

definition get_message_id :: "'v Transfer \<Rightarrow> error + int" where
  "get_message_id self =
     (let ident = push_bit 24 (transfer_priority self AND 0x1F)
                OR push_bit 7 (of_bool (service_not_message self))
                OR (case source_node_id self of None \<Rightarrow> 0 | Some n \<Rightarrow> n)
      in if service_not_message self then
           (case data_type_id self of
              None \<Rightarrow> Inl TypeError
            | Some dtid \<Rightarrow>
                if \<not> (0 \<le> dtid \<and> dtid \<le> 0xFF) then Inl AssertionError
                else
                  (case dest_node_id self of
                     None \<Rightarrow> Inl TypeError
                   | Some dest \<Rightarrow>
                       if \<not> (1 \<le> dest \<and> dest \<le> 0x7F) then Inl AssertionError
                       else Inr (ident OR push_bit 16 dtid
                                     OR push_bit 15 (of_bool (request_not_response self))
                                     OR push_bit 8 dest)))
         else if source_node_id self = Some 0 then
           (if dest_node_id self \<noteq> None then Inl AssertionError
            else
              (case discriminator self of
                 None \<Rightarrow> Inl AssertionError
               | Some disc \<Rightarrow>
                   (case data_type_id self of
                      None \<Rightarrow> Inl TypeError
                    | Some dtid \<Rightarrow> Inr (ident OR push_bit 10 disc OR push_bit 8 (dtid AND 0x3)))))
         else
           (case data_type_id self of
              None \<Rightarrow> Inl TypeError
            | Some dtid \<Rightarrow>
                if \<not> (0 \<le> dtid \<and> dtid \<le> 0xFFFF) then Inl AssertionError
                else Inr (ident OR push_bit 8 dtid)))"

text \<open>The setter of the property \<open>message_id\<close>.\<close>

definition set_message_id :: "'v Transfer \<Rightarrow> int \<Rightarrow> 'v Transfer" where
  "set_message_id self v =
     (let self1 = self\<lparr>transfer_priority := drop_bit 24 v AND 0x1F,
                       service_not_message := (v AND 0x80 \<noteq> 0),
                       source_node_id := Some (v AND 0x7F)\<rparr>
      in if service_not_message self1 then
           self1\<lparr>data_type_id := Some (drop_bit 16 v AND 0xFF),
                 request_not_response := (v AND 0x8000 \<noteq> 0),
                 dest_node_id := Some (drop_bit 8 v AND 0x7F)\<rparr>
         else if source_node_id self1 = Some 0 then
           self1\<lparr>discriminator := Some (drop_bit 10 v AND 0x3FFF),
                 data_type_id := Some (drop_bit 8 v AND 0x3)\<rparr>
         else
           self1\<lparr>data_type_id := Some (drop_bit 8 v AND 0xFFFF)\<rparr>)"

subsection \<open>to_frames\<close>

text \<open>
  The frame loop of \<open>to_frames\<close>: \<open>emitted\<close> is \<open>len(out_frames)\<close>, \<open>tail\<close> the tail value of the
  previous round (0x20 before the first) and \<open>remaining\<close> the remaining payload. The loop
  body runs before the test, so at least one frame is emitted. \<open>bchr(tail)\<close> is the byte of
  \<open>tail\<close>, which lies in \<open>0..255\<close>. The frames carry no timestamps.
\<close>

function frame_loop :: "int \<Rightarrow> int \<Rightarrow> nat \<Rightarrow> int \<Rightarrow> 8 word list \<Rightarrow> Frame list" where
  "frame_loop mid tid emitted tail remaining =
     (let tail' = (if emitted = 0 then 0x80 else 0)
                  OR (if length remaining \<le> 7 then 0x40 else 0)
                  OR ((tail XOR 0x20) AND 0x20)
                  OR (tid AND 0x1F);
          frame = \<lparr>message_id = mid, bytes = take 7 remaining @ [word_of_int tail'],
                   ts_monotonic = None, ts_real = None\<rparr>;
          remaining' = drop 7 remaining
      in if remaining' = [] then [frame]
         else frame # frame_loop mid tid (Suc emitted) tail' remaining')"
  by pat_completeness auto
termination
  by (relation "measure (\<lambda>(mid, tid, emitted, tail, remaining). length remaining)") auto

declare frame_loop.simps [simp del]

text \<open>
  The first step of \<open>to_frames\<close>: a payload of more than 7 bytes gets the two bytes of its
  CRC in front, low byte first. The CRC of a payload without a seed raises \<open>TypeError\<close>. The
  CRC is below \<open>65536\<close>, so both values are bytes and \<open>bytearray\<close> accepts them.
\<close>

definition prepend_crc :: "'v Transfer \<Rightarrow> 8 word list \<Rightarrow> error + 8 word list" where
  "prepend_crc self p =
     (if length p > 7 then
        (case data_type_crc self of
           None \<Rightarrow> Inl TypeError
         | Some seed \<Rightarrow>
             (let crc = crc16_from_bytes p seed
              in Inr ([word_of_int (crc AND 0xFF), word_of_int (drop_bit 8 crc)] @ p)))
      else Inr p)"

text \<open>
  \<open>to_frames\<close>. \<open>len\<close> of a payload that is \<open>None\<close> or a value object raises \<open>TypeError\<close>. The
  property \<open>message_id\<close> is read in every round of the loop and gives the same result each
  time; the model reads it once.
\<close>

definition to_frames :: "'v Transfer \<Rightarrow> error + Frame list" where
  "to_frames self =
     (case payload self of
        Some (Bytes p) \<Rightarrow>
          (case prepend_crc self p of
             Inl e \<Rightarrow> Inl e
           | Inr remaining_payload \<Rightarrow>
               (case get_message_id self of
                  Inl e \<Rightarrow> Inl e
                | Inr mid \<Rightarrow> Inr (frame_loop mid (transfer_id self) 0 0x20 remaining_payload)))
      | _ \<Rightarrow> Inl TypeError)"

text \<open>
  For the statements about \<open>to_frames\<close>: the number of frames for a payload on the wire, and
  the tail value of frame \<open>i\<close> out of \<open>n\<close>.
\<close>

definition frame_count :: "8 word list \<Rightarrow> nat" where
  "frame_count p = (if p = [] then 1 else (length p + 6) div 7)"

definition tail_value :: "int \<Rightarrow> nat \<Rightarrow> nat \<Rightarrow> int" where
  "tail_value tid n i =
     (if i = 0 then 0x80 else 0) OR (if Suc i = n then 0x40 else 0)
       OR (if odd i then 0x20 else 0) OR (tid AND 0x1F)"

subsection \<open>from_frames\<close>

text \<open>
  The validation loop of \<open>from_frames\<close> over the frames: \<open>idx\<close> is the index of the first
  frame of the list, \<open>n\<close> is \<open>len(frames)\<close>. It returns the exception that ends the loop, if any.
  \<open>f.bytes[-1]\<close> raises \<open>IndexError\<close> on a frame without data.
\<close>

fun check_tails :: "int \<Rightarrow> int \<Rightarrow> int \<Rightarrow> int \<Rightarrow> Frame list \<Rightarrow> error option" where
  "check_tails expected_transfer_id n idx expected_toggle [] = None"
| "check_tails expected_transfer_id n idx expected_toggle (f # fs) =
     (if bytes f = [] then Some IndexError
      else
        let tail = tail_byte f
        in if tail AND 0x1F \<noteq> expected_transfer_id then Some TransferError
           else if idx = 0 \<and> tail AND 0x80 = 0 then Some TransferError
           else if idx > 0 \<and> tail AND 0x80 \<noteq> 0 then Some TransferError
           else if idx = n - 1 \<and> tail AND 0x40 = 0 then Some TransferError
           else if idx < n - 1 \<and> tail AND 0x40 \<noteq> 0 then Some TransferError
           else if tail AND 0x20 \<noteq> expected_toggle then Some TransferError
           else check_tails expected_transfer_id n (idx + 1) (expected_toggle XOR 0x20) fs)"

text \<open>
  The construction of the payload object at the end of \<open>from_frames\<close>:
  \<open>datatype(_mode=...)\<close> followed by \<open>_unpack(bits_from_bytes(payload_bytes))\<close>. The
  constructors of the registered types belong to the missing module \<open>uavcan.dsdl\<close>; the
  function from the descriptor, the mode (\<open>Some True\<close> for a request, \<open>Some False\<close> for a
  response, \<open>None\<close> for a message) and the payload bits to the resulting object, or to the
  exception raised, is the parameter \<open>deserialize\<close>.
\<close>

type_synonym 'v deserializer = "data_type_descriptor \<Rightarrow> bool option \<Rightarrow> bits \<Rightarrow> error + 'v"

text \<open>\<open>from_frames\<close>: the transfer object after the call, or the exception raised.\<close>

definition from_frames ::
    "registry \<Rightarrow> 'v deserializer \<Rightarrow> 'v Transfer \<Rightarrow> Frame list \<Rightarrow> error + 'v Transfer" where
  "from_frames DATATYPES deserialize self frames =
     (case frames of
        [] \<Rightarrow> Inl IndexError
      | frame0 # others \<Rightarrow>
          if bytes frame0 = [] then Inl IndexError
          else
            let expected_transfer_id = tail_byte frame0 AND 0x1F
            in case check_tails expected_transfer_id (int (length frames)) 0 0 frames of
                 Some e \<Rightarrow> Inl e
               | None \<Rightarrow>
                   let self1 = set_message_id
                                 (self\<lparr>transfer_ts_monotonic := ts_monotonic frame0,
                                       transfer_ts_real := ts_real frame0,
                                       transfer_id := expected_transfer_id\<rparr>)
                                 (message_id frame0);
                       payload_bytes = concat (map (\<lambda>f. butlast (bytes f)) frames);
                       kind = (if service_not_message self1 then KIND_SERVICE else KIND_MESSAGE)
                   in case data_type_id self1 of
                        None \<Rightarrow> Inl TransferError
                      | Some dtid \<Rightarrow>
                          (case DATATYPES (dtid, kind) of
                             None \<Rightarrow> Inl TransferError
                           | Some datatype \<Rightarrow>
                               (case (if length frames > 1 then
                                        (if length payload_bytes < 2 then Inl IndexError
                                         else
                                           let transfer_crc = uint (payload_bytes ! 0)
                                                 + push_bit 8 (uint (payload_bytes ! 1));
                                               payload_bytes' = drop 2 payload_bytes;
                                               crc = crc16_from_bytes payload_bytes' (base_crc datatype)
                                           in if crc \<noteq> transfer_crc then Inl TransferError
                                              else Inr payload_bytes')
                                      else Inr payload_bytes) of
                                  Inl e \<Rightarrow> Inl e
                                | Inr payload_bytes \<Rightarrow>
                                    (case deserialize datatype
                                            (if service_not_message self1
                                             then Some (request_not_response self1) else None)
                                            (bits_from_bytes payload_bytes) of
                                       Inl e \<Rightarrow> Inl e
                                     | Inr v \<Rightarrow>
                                         Inr (self1\<lparr>data_type_id := Some (default_dtid datatype),
                                                     data_type_signature :=
                                                       Some (get_data_type_signature datatype),
                                                     data_type_crc := Some (base_crc datatype),
                                                     payload := Some (Value v)\<rparr>)))))"

subsection \<open>The conditions under which from_frames rejects a frame list\<close>

text \<open>
  The tail-byte discipline of a frame list, stated with the properties of \<open>Frame\<close>: every
  frame has the 5-bit transfer id of frame 0, start-of-transfer is set on frame 0 and on no
  other, end-of-transfer on the last frame and on no other, and the toggle bit of frame \<open>i\<close> is
  \<open>i mod 2\<close>.
\<close>

definition tail_discipline :: "Frame list \<Rightarrow> bool" where
  "tail_discipline frames =
     list_all (\<lambda>i. snd (transfer_key (frames ! i)) = snd (transfer_key (frames ! 0)) \<and>
                    start_of_transfer (frames ! i) = (i = 0) \<and>
                    end_of_transfer (frames ! i) = (Suc i = length frames) \<and>
                    toggle (frames ! i) = odd i)
              [0 ..< length frames]"

text \<open>The registered data type that the identifier of a frame names, read as the setter of
  \<open>message_id\<close> reads it.\<close>

definition frame_data_type :: "registry \<Rightarrow> Frame \<Rightarrow> data_type_descriptor option" where
  "frame_data_type DATATYPES f =
     (let t = set_message_id (Transfer_init :: unit Transfer) (message_id f)
      in case data_type_id t of
           None \<Rightarrow> None
         | Some dtid \<Rightarrow>
             DATATYPES (dtid, if service_not_message t then KIND_SERVICE else KIND_MESSAGE))"

text \<open>The payload bytes of a frame list: the data of the frames without their tail bytes.\<close>

definition payload_bytes_of :: "Frame list \<Rightarrow> 8 word list" where
  "payload_bytes_of frames = concat (map (\<lambda>f. butlast (bytes f)) frames)"

text \<open>In a list of more than one frame, the CRC of the payload behind the first two bytes,
  seeded by the registered data type, differs from the value in those two bytes.\<close>

definition crc_mismatch :: "registry \<Rightarrow> Frame list \<Rightarrow> bool" where
  "crc_mismatch DATATYPES frames =
     (length frames > 1 \<and>
      (case frame_data_type DATATYPES (hd frames) of
         None \<Rightarrow> False
       | Some datatype \<Rightarrow>
           crc16_from_bytes (drop 2 (payload_bytes_of frames)) (base_crc datatype)
             \<noteq> uint (payload_bytes_of frames ! 0) + push_bit 8 (uint (payload_bytes_of frames ! 1))))"

subsection \<open>Examples\<close>

text \<open>
  A message transfer from node 42 with priority 16, transfer id 37, data type id 341 and a
  payload of 8 bytes, with the registry that holds its data type, and a deserializer that
  returns the payload bits as the value object.
\<close>

definition example_type :: data_type_descriptor where
  "example_type = \<lparr>full_name = ''uavcan.protocol.NodeStatus'', default_dtid = 341,
                    base_crc = 0xFFFF, get_data_type_signature = 0\<rparr>"

definition example_registry :: registry where
  "example_registry = (\<lambda>key. if key = (341, KIND_MESSAGE) then Some example_type else None)"

definition example_deserialize :: "bits deserializer" where
  "example_deserialize datatype request stream = Inr stream"

definition example_transfer :: "bits Transfer" where
  "example_transfer =
     \<lparr>transfer_priority = 16, transfer_id = 37, source_node_id = Some 42, dest_node_id = None,
      data_type_signature = Some 0, request_not_response = False, service_not_message = False,
      discriminator = None, transfer_ts_monotonic = None, transfer_ts_real = None,
      payload = Some (Bytes [1, 2, 3, 4, 5, 6, 7, 8]), data_type_id = Some 341,
      data_type_crc = Some 0xFFFF, is_complete = True\<rparr>"

section \<open>Properties of the dispatch index\<close>

lemma NUM_NODE_IDS_eq: "NUM_NODE_IDS = 128"
  by (simp add: NUM_NODE_IDS_def NODE_ID_MASK_def)

lemma dim1_of_range:
  "legal_data_specifier K ds \<Longrightarrow> 0 \<le> dim1_of K ds \<and> dim1_of K ds < NUM_SUBJECTS K + NUM_SERVICES K * 2"
  by (cases "(K, ds)" rule: dim1_of.cases) (auto simp: NUM_SUBJECTS_def NUM_SERVICES_def)

lemma dim2_of_range: "legal_source_node_id n \<Longrightarrow> 0 \<le> dim2_of n \<and> dim2_of n < 129"
  by (cases n) (auto simp: NUM_NODE_IDS_eq)

lemma point_in_table:
  fixes d1 d2 m :: int
  assumes "0 \<le> d1" "d1 < m" "0 \<le> d2" "d2 < 129"
  shows "0 \<le> d1 * 129 + d2 \<and> d1 * 129 + d2 < m * 129"
proof -
  have "d1 + 1 \<le> m" using assms by simp
  then have "(d1 + 1) * 129 \<le> m * 129" by (rule mult_right_mono) simp
  with assms show ?thesis by (simp add: algebra_simps)
qed

lemma compute_index_legal:
  assumes "legal_data_specifier K ds" "legal_source_node_id n"
  shows "compute_input_dispatch_table_index K ds n = Inr (dim1_of K ds * 129 + dim2_of n)"
proof -
  have a: "(case n of None \<Rightarrow> True | Some k \<Rightarrow> k < NUM_NODE_IDS)"
    using assms(2) by (cases n) auto
  have d1: "(case ds of MessageDataSpecifier s \<Rightarrow> s
               | ServiceDataSpecifier s CLIENT \<Rightarrow> s + NUM_SUBJECTS K
               | ServiceDataSpecifier s SERVER \<Rightarrow> s + NUM_SUBJECTS K + NUM_SERVICES K) = dim1_of K ds"
    by (cases "(K, ds)" rule: dim1_of.cases) auto
  have d2: "(case n of Some k \<Rightarrow> k | None \<Rightarrow> NUM_NODE_IDS) = dim2_of n"
    by (cases n) auto
  have "0 \<le> dim1_of K ds * 129 + dim2_of n \<and>
        dim1_of K ds * 129 + dim2_of n < (NUM_SUBJECTS K + NUM_SERVICES K * 2) * 129"
    using dim1_of_range [OF assms(1)] dim2_of_range [OF assms(2)] by (intro point_in_table) auto
  then show ?thesis
    unfolding compute_input_dispatch_table_index_def d1 d2 Let_def
    using a by (simp add: INPUT_DISPATCH_TABLE_SIZE_def NUM_NODE_IDS_eq)
qed

lemma dim1_of_inj:
  assumes "legal_data_specifier K a" "legal_data_specifier K b" "dim1_of K a = dim1_of K b"
  shows "a = b"
  using assms
  by (cases "(K, a)" rule: dim1_of.cases; cases "(K, b)" rule: dim1_of.cases)
     (auto simp: NUM_SUBJECTS_def NUM_SERVICES_def)

lemma dim2_of_inj:
  assumes "legal_source_node_id a" "legal_source_node_id b" "dim2_of a = dim2_of b"
  shows "a = b"
  using assms by (cases a; cases b) (auto simp: NUM_NODE_IDS_eq)

lemma point_decompose:
  fixes d1 d2 e1 e2 :: int
  assumes "0 \<le> d2" "d2 < 129" "0 \<le> e2" "e2 < 129" "d1 * 129 + d2 = e1 * 129 + e2"
  shows "d1 = e1 \<and> d2 = e2"
proof -
  have "(d1 * 129 + d2) div 129 = d1" "(d1 * 129 + d2) mod 129 = d2"
    using assms(1,2) by simp_all
  moreover have "(e1 * 129 + e2) div 129 = e1" "(e1 * 129 + e2) mod 129 = e2"
    using assms(3,4) by simp_all
  ultimately show ?thesis using assms(5) by metis
qed

lemma dispatch_index_inj: "inj_on (dispatch_index K) (legal_inputs K)"
proof (rule inj_onI)
  fix p q assume p: "p \<in> legal_inputs K" and q: "q \<in> legal_inputs K"
    and eq: "dispatch_index K p = dispatch_index K q"
  obtain a m where pq: "p = (a, m)" by (cases p)
  obtain b n where qq: "q = (b, n)" by (cases q)
  from p q pq qq have l: "legal_data_specifier K a" "legal_source_node_id m"
      "legal_data_specifier K b" "legal_source_node_id n"
    by (auto simp: legal_inputs_def)
  from eq have "dim1_of K a * 129 + dim2_of m = dim1_of K b * 129 + dim2_of n"
    by (simp add: dispatch_index_def pq qq compute_index_legal l)
  then have "dim1_of K a = dim1_of K b \<and> dim2_of m = dim2_of n"
    using dim2_of_range [OF l(2)] dim2_of_range [OF l(4)] by (intro point_decompose) auto
  then show "p = q"
    using dim1_of_inj [OF l(1) l(3)] dim2_of_inj [OF l(2) l(4)] by (simp add: pq qq)
qed

lemma dispatch_index_legal:
  "p \<in> legal_inputs K \<Longrightarrow> dispatch_index K p = Inr (dim1_of K (fst p) * 129 + dim2_of (snd p))"
  by (cases p) (simp add: legal_inputs_def dispatch_index_def compute_index_legal)

lemma dispatch_index_range:
  assumes "p \<in> legal_inputs K"
  shows "dispatch_index K p \<in> Inr ` {0 ..< INPUT_DISPATCH_TABLE_SIZE K}"
proof -
  obtain a m where pq: "p = (a, m)" by (cases p)
  from assms pq have l: "legal_data_specifier K a" "legal_source_node_id m"
    by (auto simp: legal_inputs_def)
  have "0 \<le> dim1_of K a * 129 + dim2_of m \<and>
        dim1_of K a * 129 + dim2_of m < (NUM_SUBJECTS K + NUM_SERVICES K * 2) * 129"
    using dim1_of_range [OF l(1)] dim2_of_range [OF l(2)] by (intro point_in_table) auto
  moreover have "dispatch_index K p = Inr (dim1_of K a * 129 + dim2_of m)"
    using dispatch_index_legal [OF assms] pq by simp
  ultimately show ?thesis
    by (simp add: INPUT_DISPATCH_TABLE_SIZE_def NUM_NODE_IDS_eq image_iff)
qed

text \<open>Every slot of the table is the index of a legal input: the inverse of the index function.\<close>

definition slot_data_specifier :: "can_id_masks \<Rightarrow> int \<Rightarrow> data_specifier" where
  "slot_data_specifier K d1 =
     (if d1 < NUM_SUBJECTS K then MessageDataSpecifier d1
      else if d1 < NUM_SUBJECTS K + NUM_SERVICES K then ServiceDataSpecifier (d1 - NUM_SUBJECTS K) CLIENT
      else ServiceDataSpecifier (d1 - NUM_SUBJECTS K - NUM_SERVICES K) SERVER)"

definition slot_source_node_id :: "int \<Rightarrow> int option" where
  "slot_source_node_id d2 = (if d2 = NUM_NODE_IDS then None else Some d2)"

lemma slot_data_specifier_legal:
  assumes "0 \<le> d1" "d1 < NUM_SUBJECTS K + NUM_SERVICES K * 2"
  shows "legal_data_specifier K (slot_data_specifier K d1) \<and> dim1_of K (slot_data_specifier K d1) = d1"
  using assms by (simp add: slot_data_specifier_def)

lemma slot_source_node_id_legal:
  assumes "0 \<le> d2" "d2 < 129"
  shows "legal_source_node_id (slot_source_node_id d2) \<and> dim2_of (slot_source_node_id d2) = d2"
  using assms by (simp add: slot_source_node_id_def NUM_NODE_IDS_eq)

lemma div_in_table:
  fixes i m :: int
  assumes "0 \<le> i" "i < m * 129"
  shows "0 \<le> i div 129 \<and> i div 129 < m"
  using assms by (simp add: div_less_iff_less_mult pos_imp_zdiv_nonneg_iff)

lemma dispatch_index_covers:
  assumes "0 \<le> i" "i < INPUT_DISPATCH_TABLE_SIZE K"
  shows "Inr i \<in> dispatch_index K ` legal_inputs K"
proof -
  let ?m = "NUM_SUBJECTS K + NUM_SERVICES K * 2"
  let ?d1 = "i div 129" and ?d2 = "i mod 129"
  have i: "i < ?m * 129"
    using assms(2) by (simp add: INPUT_DISPATCH_TABLE_SIZE_def NUM_NODE_IDS_eq)
  have d2: "0 \<le> ?d2" "?d2 < 129" by simp_all
  have d1: "0 \<le> ?d1" "?d1 < ?m" using div_in_table [OF assms(1) i] by simp_all
  let ?p = "(slot_data_specifier K ?d1, slot_source_node_id ?d2)"
  have leg: "?p \<in> legal_inputs K"
    using slot_data_specifier_legal [OF d1] slot_source_node_id_legal [OF d2]
    by (simp add: legal_inputs_def)
  have "dispatch_index K ?p = Inr (?d1 * 129 + ?d2)"
    using slot_data_specifier_legal [OF d1] slot_source_node_id_legal [OF d2]
    by (simp add: dispatch_index_legal [OF leg])
  then have "dispatch_index K ?p = Inr i" by simp
  with leg show ?thesis by (metis imageI)
qed

lemma dispatch_index_image:
  "dispatch_index K ` legal_inputs K = Inr ` {0 ..< INPUT_DISPATCH_TABLE_SIZE K}"
proof (rule set_eqI, rule iffI)
  fix x :: "error + int" assume "x \<in> dispatch_index K ` legal_inputs K"
  then show "x \<in> Inr ` {0 ..< INPUT_DISPATCH_TABLE_SIZE K}"
    using dispatch_index_range by blast
next
  fix x :: "error + int" assume "x \<in> Inr ` {0 ..< INPUT_DISPATCH_TABLE_SIZE K}"
  then obtain i where "x = Inr i" "0 \<le> i" "i < INPUT_DISPATCH_TABLE_SIZE K" by auto
  then show "x \<in> dispatch_index K ` legal_inputs K"
    using dispatch_index_covers by simp
qed

text \<open>
  Claim C3. The index function is injective on the legal inputs (a message specifier with its
  subject id in range, a service specifier with its service id in range and either role, each
  with a source node id in \<open>0..NUM_NODE_IDS-1\<close> or \<open>None\<close>); the indices it returns are exactly
  the integers of \<open>[0, (NUM_SUBJECTS + 2 * NUM_SERVICES) * (NUM_NODE_IDS + 1))\<close>, so their
  number is that bound. This holds for every value of the subject-id and service-id masks.
\<close>

theorem dispatch_index_bijection:
  "inj_on (dispatch_index K) (legal_inputs K) \<and>
   dispatch_index K ` legal_inputs K = Inr ` {0 ..< INPUT_DISPATCH_TABLE_SIZE K} \<and>
   INPUT_DISPATCH_TABLE_SIZE K = (NUM_SUBJECTS K + 2 * NUM_SERVICES K) * (NUM_NODE_IDS + 1) \<and>
   card (dispatch_index K ` legal_inputs K) = nat (INPUT_DISPATCH_TABLE_SIZE K)"
proof -
  have "card (Inr ` {0 ..< INPUT_DISPATCH_TABLE_SIZE K} :: (error + int) set)
        = card {0 ..< INPUT_DISPATCH_TABLE_SIZE K}"
    by (rule card_image) simp
  then show ?thesis
    by (simp add: dispatch_index_inj dispatch_index_image INPUT_DISPATCH_TABLE_SIZE_def)
qed

theorem dispatch_index_bijection_witness:
  "(MessageDataSpecifier 100, Some 7) \<in> legal_inputs \<lparr>SUBJECT_ID_MASK = 8191, SERVICE_ID_MASK = 255\<rparr> \<and>
   (ServiceDataSpecifier 100 SERVER, None) \<in> legal_inputs \<lparr>SUBJECT_ID_MASK = 8191, SERVICE_ID_MASK = 255\<rparr> \<and>
   dispatch_index \<lparr>SUBJECT_ID_MASK = 8191, SERVICE_ID_MASK = 255\<rparr> (MessageDataSpecifier 100, Some 7)
     \<noteq> dispatch_index \<lparr>SUBJECT_ID_MASK = 8191, SERVICE_ID_MASK = 255\<rparr> (ServiceDataSpecifier 100 SERVER, None) \<and>
   card (dispatch_index \<lparr>SUBJECT_ID_MASK = 8191, SERVICE_ID_MASK = 255\<rparr>
           ` legal_inputs \<lparr>SUBJECT_ID_MASK = 8191, SERVICE_ID_MASK = 255\<rparr>) = 1122816"
proof -
  let ?K = "\<lparr>SUBJECT_ID_MASK = 8191, SERVICE_ID_MASK = 255\<rparr>"
  have a: "(MessageDataSpecifier 100, Some 7) \<in> legal_inputs ?K"
    by (simp add: legal_inputs_def NUM_SUBJECTS_def NUM_NODE_IDS_eq)
  have b: "(ServiceDataSpecifier 100 SERVER, None) \<in> legal_inputs ?K"
    by (simp add: legal_inputs_def NUM_SERVICES_def)
  have c: "nat (INPUT_DISPATCH_TABLE_SIZE ?K) = 1122816"
    by (simp add: INPUT_DISPATCH_TABLE_SIZE_def NUM_SUBJECTS_def NUM_SERVICES_def NUM_NODE_IDS_eq)
  from dispatch_index_bijection [of ?K] have inj: "inj_on (dispatch_index ?K) (legal_inputs ?K)"
    and card: "card (dispatch_index ?K ` legal_inputs ?K) = nat (INPUT_DISPATCH_TABLE_SIZE ?K)"
    by blast+
  have "dispatch_index ?K (MessageDataSpecifier 100, Some 7)
        \<noteq> dispatch_index ?K (ServiceDataSpecifier 100 SERVER, None)"
    using inj_onD [OF inj _ a b] by auto
  with a b c card show ?thesis by simp
qed

section \<open>Properties of the CAN transport\<close>





lemma set_local_node_id_taken:
  "local_node_id self \<noteq> None \<Longrightarrow>
     set_local_node_id self m n = (Inl InvalidTransportConfigurationError, self)"
  by (auto simp: set_local_node_id_def)

lemma set_local_node_id_range:
  "local_node_id self = None \<Longrightarrow> \<not> (0 \<le> n \<and> n \<le> 127) \<Longrightarrow>
     set_local_node_id self m n = (Inl ValueError, self)"
  by (auto simp: set_local_node_id_def NODE_ID_MASK_def)

lemma set_local_node_id_stores:
  "local_node_id self = None \<Longrightarrow> 0 \<le> n \<Longrightarrow> n \<le> 127 \<Longrightarrow>
     set_local_node_id self m n =
       ((case m of None \<Rightarrow> Inr () | Some e \<Rightarrow> Inl e), self\<lparr>local_node_id := Some n\<rparr>)"
  by (simp add: set_local_node_id_def NODE_ID_MASK_def Let_def split: option.splits)

text \<open>
  Against claim C9 as stated: on a transport without a node id, a node id outside \<open>0..127\<close> is
  refused with \<open>ValueError\<close>, which is not \<open>InvalidTransportConfigurationError\<close>.
\<close>

theorem set_local_node_id_range_counterexample:
  "fst (set_local_node_id \<lparr>local_node_id = None, input_dispatch_table = ([] :: unit option list)\<rparr> None 200)
     = Inl ValueError \<and>
   fst (set_local_node_id \<lparr>local_node_id = None, input_dispatch_table = ([] :: unit option list)\<rparr> None 200)
     \<noteq> Inl InvalidTransportConfigurationError"
  by (simp add: set_local_node_id_def NODE_ID_MASK_def)

text \<open>
  Claim C9, amended. \<open>set_local_node_id\<close> assigns the node id at most once. When a node id is
  already set the call raises \<open>InvalidTransportConfigurationError\<close> and changes nothing. When
  none is set and the argument is outside \<open>0..127\<close> the call raises \<open>ValueError\<close> and changes
  nothing. When none is set and the argument is in \<open>0..127\<close> the id is stored and readable as
  \<open>local_node_id\<close> (the call returns normally unless the media raises afterwards), and every
  later call, with any argument, raises \<open>InvalidTransportConfigurationError\<close>.
\<close>

theorem set_local_node_id_once:
  "(local_node_id self \<noteq> None \<longrightarrow>
      set_local_node_id self m n = (Inl InvalidTransportConfigurationError, self)) \<and>
   (local_node_id self = None \<and> \<not> (0 \<le> n \<and> n \<le> 127) \<longrightarrow>
      set_local_node_id self m n = (Inl ValueError, self)) \<and>
   (local_node_id self = None \<and> 0 \<le> n \<and> n \<le> 127 \<longrightarrow>
      fst (set_local_node_id self m n) = (case m of None \<Rightarrow> Inr () | Some e \<Rightarrow> Inl e) \<and>
      local_node_id (snd (set_local_node_id self m n)) = Some n \<and>
      (\<forall>m' n'. set_local_node_id (snd (set_local_node_id self m n)) m' n'
          = (Inl InvalidTransportConfigurationError, snd (set_local_node_id self m n))))"
proof (intro conjI impI)
  assume "local_node_id self \<noteq> None"
  then show "set_local_node_id self m n = (Inl InvalidTransportConfigurationError, self)"
    by (rule set_local_node_id_taken)
next
  assume "local_node_id self = None \<and> \<not> (0 \<le> n \<and> n \<le> 127)"
  then show "set_local_node_id self m n = (Inl ValueError, self)"
    by (simp add: set_local_node_id_range)
next
  assume a: "local_node_id self = None \<and> 0 \<le> n \<and> n \<le> 127"
  then have eq: "set_local_node_id self m n =
       ((case m of None \<Rightarrow> Inr () | Some e \<Rightarrow> Inl e), self\<lparr>local_node_id := Some n\<rparr>)"
    by (simp add: set_local_node_id_stores)
  show "fst (set_local_node_id self m n) = (case m of None \<Rightarrow> Inr () | Some e \<Rightarrow> Inl e)"
    by (simp add: eq)
  show "local_node_id (snd (set_local_node_id self m n)) = Some n"
    by (simp add: eq)
  show "\<forall>m' n'. set_local_node_id (snd (set_local_node_id self m n)) m' n'
          = (Inl InvalidTransportConfigurationError, snd (set_local_node_id self m n))"
    by (simp add: eq set_local_node_id_taken)
qed

theorem set_local_node_id_once_witness:
  "local_node_id (snd (set_local_node_id
       \<lparr>local_node_id = None, input_dispatch_table = ([] :: unit option list)\<rparr> None 42)) = Some 42 \<and>
   fst (set_local_node_id (snd (set_local_node_id
       \<lparr>local_node_id = None, input_dispatch_table = ([] :: unit option list)\<rparr> None 42)) None 7)
     = Inl InvalidTransportConfigurationError \<and>
   fst (set_local_node_id
       \<lparr>local_node_id = None, input_dispatch_table = ([] :: unit option list)\<rparr> None 128) = Inl ValueError \<and>
   fst (set_local_node_id
       \<lparr>local_node_id = Some 3, input_dispatch_table = ([] :: unit option list)\<rparr> None 5)
     = Inl InvalidTransportConfigurationError"
  using set_local_node_id_once [of "\<lparr>local_node_id = None, input_dispatch_table = ([] :: unit option list)\<rparr>" None 42]
    set_local_node_id_once [of "\<lparr>local_node_id = None, input_dispatch_table = ([] :: unit option list)\<rparr>" None 128]
    set_local_node_id_once [of "\<lparr>local_node_id = Some 3, input_dispatch_table = ([] :: unit option list)\<rparr>" None 5]
  by simp











section \<open>Properties of the transfer manager\<close>

text \<open>
  Claim C7. For every state of the manager and every frame whose start-of-transfer bit is clear
  and whose transfer key has no bucket, \<open>receive_frame\<close> returns nothing and leaves both
  dictionaries as they were.
\<close>

theorem receive_frame_drops_orphan:
  assumes "\<not> start_of_transfer frame"
    and "map_of (active_transfers self) (transfer_key frame) = None"
  shows "receive_frame self now frame = (None, self)"
  using assms by (simp add: receive_frame_def Let_def)

theorem receive_frame_drops_orphan_witness:
  "\<not> start_of_transfer \<lparr>message_id = 5, bytes = [1, 0x23], ts_monotonic = None, ts_real = None\<rparr> \<and>
   map_of (active_transfers
      \<lparr>active_transfers = [((5, Some 4), [])], active_transfer_timestamps = [((5, Some 4), 2)]\<rparr>)
      (transfer_key \<lparr>message_id = 5, bytes = [1, 0x23], ts_monotonic = None, ts_real = None\<rparr>) = None \<and>
   receive_frame
      \<lparr>active_transfers = [((5, Some 4), [])], active_transfer_timestamps = [((5, Some 4), 2)]\<rparr> 3
      \<lparr>message_id = 5, bytes = [1, 0x23], ts_monotonic = None, ts_real = None\<rparr>
     = (None, \<lparr>active_transfers = [((5, Some 4), [])], active_transfer_timestamps = [((5, Some 4), 2)]\<rparr>)"
proof -
  let ?f = "\<lparr>message_id = 5, bytes = [1, 0x23], ts_monotonic = None, ts_real = None\<rparr>"
  let ?m = "\<lparr>active_transfers = [((5, Some 4), [])], active_transfer_timestamps = [((5, Some 4), 2)]\<rparr>"
  have 1: "\<not> start_of_transfer ?f" by (simp add: start_of_transfer_def tail_byte_def)
  have 2: "map_of (active_transfers ?m) (transfer_key ?f) = None"
    by (simp add: transfer_key_def tail_byte_def)
  from receive_frame_drops_orphan [OF 1 2, of 3] 1 2 show ?thesis by simp
qed

lemma keys_update: "fst ` set (AList.update k v al) = insert k (fst ` set al)"
  using dom_update [of k v al] by (simp add: dom_map_of_conv_image_fst)

lemma keys_delete: "fst ` set (AList.delete k al) = fst ` set al - {k}"
  using delete_keys [of k al] by (metis list.set_map set_removeAll)

lemma receive_frame_keys:
  assumes "transfer_keys self = timestamp_keys self"
  shows "transfer_keys (snd (receive_frame self now frame))
           = timestamp_keys (snd (receive_frame self now frame))"
  using assms
  by (simp add: receive_frame_def Let_def transfer_keys_def timestamp_keys_def
        keys_update keys_delete)

lemma remove_loop_keys:
  assumes "transfer_keys self = timestamp_keys self"
  shows "transfer_keys (snd (remove_loop py3 t timeout keys self))
           = timestamp_keys (snd (remove_loop py3 t timeout keys self))"
  using assms
proof (induction keys arbitrary: self)
  case Nil
  then show ?case by simp
next
  case (Cons key keys)
  define self' where "self' = \<lparr>active_transfers = AList.delete key (active_transfers self),
      active_transfer_timestamps = AList.delete key (active_transfer_timestamps self)\<rparr>"
  have eq': "transfer_keys self' = timestamp_keys self'"
    using Cons.prems by (simp add: self'_def transfer_keys_def timestamp_keys_def keys_delete)
  have ih': "transfer_keys (snd (remove_loop py3 t timeout keys self'))
               = timestamp_keys (snd (remove_loop py3 t timeout keys self'))"
    using eq' by (rule Cons.IH)
  have ih: "transfer_keys (snd (remove_loop py3 t timeout keys self))
               = timestamp_keys (snd (remove_loop py3 t timeout keys self))"
    using Cons.prems by (rule Cons.IH)
  have step: "remove_loop py3 t timeout (key # keys) self =
     (case map_of (active_transfer_timestamps self) key of
        None \<Rightarrow> (Some KeyError, self)
      | Some stamp \<Rightarrow>
          if t - stamp > timeout then
            (if map_of (active_transfers self) key = None then (Some KeyError, self)
             else if py3 then (Some RuntimeError, self')
                  else remove_loop py3 t timeout keys self')
          else remove_loop py3 t timeout keys self)"
    by (cases "map_of (active_transfer_timestamps self) key") (auto simp: self'_def Let_def)
  show ?case
    unfolding step using Cons.prems eq' ih ih' by (cases py3) (auto split: option.splits)
qed

lemma remove_inactive_transfers_keys:
  assumes "transfer_keys self = timestamp_keys self"
  shows "transfer_keys (snd (remove_inactive_transfers py3 self now timeout))
           = timestamp_keys (snd (remove_inactive_transfers py3 self now timeout))"
  using assms by (simp add: remove_inactive_transfers_def remove_loop_keys)

lemma reachable_keys:
  assumes "self \<in> reachable"
  shows "transfer_keys self = timestamp_keys self"
  using assms
proof (induction rule: reachable.induct)
  case initial
  show ?case by (simp add: transfer_keys_def timestamp_keys_def TransferManager_init_def)
next
  case (received self now frame)
  then show ?case by (simp add: receive_frame_keys)
next
  case (swept self py3 now timeout)
  then show ?case by (simp add: remove_inactive_transfers_keys)
qed

text \<open>
  Claim C10. In every state of the manager reachable from a new manager by calls of
  \<open>receive_frame\<close> and \<open>remove_inactive_transfers\<close>, the keys of \<open>active_transfers\<close> are the
  keys of \<open>active_transfer_timestamps\<close>; and each of the two operations, started in a state
  where the key sets agree, ends in a state where they agree (also when the sweep ends with an
  exception), so entries of the two dictionaries are created and deleted together.
\<close>

theorem reachable_same_keys:
  "(self \<in> reachable \<longrightarrow> transfer_keys self = timestamp_keys self) \<and>
   (transfer_keys self = timestamp_keys self \<longrightarrow>
      (\<forall>now frame. transfer_keys (snd (receive_frame self now frame))
                      = timestamp_keys (snd (receive_frame self now frame))) \<and>
      (\<forall>py3 now timeout. transfer_keys (snd (remove_inactive_transfers py3 self now timeout))
                      = timestamp_keys (snd (remove_inactive_transfers py3 self now timeout))))"
  using reachable_keys receive_frame_keys remove_inactive_transfers_keys by blast

theorem reachable_same_keys_witness:
  "snd (receive_frame TransferManager_init 1
          \<lparr>message_id = 5, bytes = [1, 0x83], ts_monotonic = None, ts_real = None\<rparr>) \<in> reachable \<and>
   transfer_keys (snd (receive_frame TransferManager_init 1
          \<lparr>message_id = 5, bytes = [1, 0x83], ts_monotonic = None, ts_real = None\<rparr>)) = {(5, Some 3)} \<and>
   timestamp_keys (snd (receive_frame TransferManager_init 1
          \<lparr>message_id = 5, bytes = [1, 0x83], ts_monotonic = None, ts_real = None\<rparr>)) = {(5, Some 3)}"
proof -
  let ?s = "snd (receive_frame TransferManager_init 1
          \<lparr>message_id = 5, bytes = [1, 0x83], ts_monotonic = None, ts_real = None\<rparr>)"
  have r: "?s \<in> reachable" by (rule reachable.received [OF reachable.initial])
  have k: "transfer_keys ?s = {(5, Some 3)}"
    by (simp add: receive_frame_def TransferManager_init_def transfer_key_def tail_byte_def
          start_of_transfer_def end_of_transfer_def transfer_keys_def Let_def)
  from reachable_same_keys [of ?s] r k show ?thesis by simp
qed

section \<open>Properties of the bit-stream codec\<close>










section \<open>Properties of array values\<close>

lemma ArrayValue_init_small_element:
  assumes "getattr_bitlen vt < 8"
  shows "ArrayValue_init ops vt m n flag = ArrayValue_init ops vt m n False"
  using assms by (simp add: ArrayValue_init_def)

lemma ArrayValue_init_dynamic:
  "ArrayValue_init ops vt MODE_DYNAMIC n flag =
     Inr \<lparr>value_type = vt, mode = MODE_DYNAMIC, max_size = n,
          tao = (if getattr_bitlen vt \<ge> 8 then flag else False), items = []\<rparr>"
  by (simp add: ArrayValue_init_def)

text \<open>
  Claim C8. For an array whose element type has a bit width below 8 (a 1-bit element type
  included; an element type without the attribute \<open>bitlen\<close> counts as width 0), the
  constructor gives the same array value whatever tail-array flag the enclosing context
  passes, and its flag \<open>_tao\<close> is off. Such a dynamic array, with any items, packs as the
  count of its items in \<open>count_width\<close> bits followed by the items, and unpacks by reading the
  count from the first \<open>count_width\<close> bits and then that many items, returning the rest of the
  stream; the loop that consumes the stream to its end is not entered.
\<close>

theorem small_element_disables_tao:
  assumes "getattr_bitlen vt < 8"
  shows "ArrayValue_init ops vt m n flag = ArrayValue_init ops vt m n False \<and>
         (\<forall>a. ArrayValue_init ops vt m n flag = Inr a \<longrightarrow> \<not> tao a) \<and>
         (\<exists>a. ArrayValue_init ops vt MODE_DYNAMIC n flag = Inr a \<and>
              (\<forall>xs. ArrayValue_pack ops (a\<lparr>items := xs\<rparr>) =
                      (case count_width ops n of
                         Inl e \<Rightarrow> Inl e
                       | Inr w \<Rightarrow>
                           (case join_packs (item_pack ops) xs of
                              Inl e \<Rightarrow> Inl e
                            | Inr bs \<Rightarrow> Inr (format_b (length xs) w @ bs)))) \<and>
              (\<forall>xs stream.
                    ArrayValue_unpack ops (a\<lparr>items := xs\<rparr>) stream =
                      Some (case count_width ops n of
                              Inl e \<Rightarrow> Inl e
                            | Inr w \<Rightarrow>
                                (case int2 (take w stream) of
                                   Inl e \<Rightarrow> Inl e
                                 | Inr count \<Rightarrow>
                                     (case unpack_counted ops vt count (drop w stream) of
                                        Inl e \<Rightarrow> Inl e
                                      | Inr (its, rest) \<Rightarrow> Inr (a\<lparr>items := its\<rparr>, rest))))))"
    (is "_ \<and> _ \<and> (\<exists>a. ?I a \<and> ?P a \<and> ?U a)")
proof (intro conjI)
  show "ArrayValue_init ops vt m n flag = ArrayValue_init ops vt m n False"
    using assms by (rule ArrayValue_init_small_element)
  show "\<forall>a. ArrayValue_init ops vt m n flag = Inr a \<longrightarrow> \<not> tao a"
    using assms by (auto simp: ArrayValue_init_def Let_def split: if_splits sum.splits)
  let ?a = "\<lparr>value_type = vt, mode = MODE_DYNAMIC, max_size = n, tao = False, items = []\<rparr>
              :: 'a ArrayValue"
  have init: "?I ?a"
    using assms by (simp add: ArrayValue_init_dynamic)
  have pack: "?P ?a"
    by (auto simp: ArrayValue_pack_def pack_with_count_def split: sum.splits prod.splits)
  have unpack: "?U ?a"
    by (auto simp: ArrayValue_unpack_def unpack_with_count_def split: sum.splits prod.splits)
  from init pack unpack show "\<exists>a. ?I a \<and> ?P a \<and> ?U a" by blast
qed

theorem small_element_disables_tao_witness:
  "getattr_bitlen (PrimitiveType KIND_BOOLEAN 1 CAST_MODE_SATURATED) < 8 \<and>
   ArrayValue_init bool_element_ops (PrimitiveType KIND_BOOLEAN 1 CAST_MODE_SATURATED) MODE_DYNAMIC 4 True
     = Inr \<lparr>value_type = PrimitiveType KIND_BOOLEAN 1 CAST_MODE_SATURATED, mode = MODE_DYNAMIC,
            max_size = 4, tao = False, items = []\<rparr> \<and>
   ArrayValue_pack bool_element_ops
       \<lparr>value_type = PrimitiveType KIND_BOOLEAN 1 CAST_MODE_SATURATED, mode = MODE_DYNAMIC,
        max_size = 4, tao = False, items = [[True], [False], [True]]\<rparr>
     = Inr [True, True, True, False, True] \<and>
   ArrayValue_unpack bool_element_ops
       \<lparr>value_type = PrimitiveType KIND_BOOLEAN 1 CAST_MODE_SATURATED, mode = MODE_DYNAMIC,
        max_size = 4, tao = False, items = []\<rparr>
       [True, False, True, False, True, True, True, True, True, True, True]
     = Some (Inr (\<lparr>value_type = PrimitiveType KIND_BOOLEAN 1 CAST_MODE_SATURATED, mode = MODE_DYNAMIC,
                    max_size = 4, tao = False, items = [[True], [False]]\<rparr>,
                  [True, True, True, True, True, True, True]))"
proof -
  let ?vt = "PrimitiveType KIND_BOOLEAN 1 CAST_MODE_SATURATED"
  let ?a = "\<lparr>value_type = ?vt, mode = MODE_DYNAMIC, max_size = 4, tao = False, items = []\<rparr>
              :: bits ArrayValue"
  have h: "getattr_bitlen ?vt < 8" by simp
  have i: "ArrayValue_init bool_element_ops ?vt MODE_DYNAMIC 4 True = Inr ?a"
    by (simp add: ArrayValue_init_def)
  have w: "count_width bool_element_ops 4 = Inr 2"
    by (simp add: count_width_def bool_element_ops_def bin_digits.simps)
  have f: "format_b (Suc (Suc (Suc 0))) 2 = [True, True]"
    by (simp add: format_b_def bin_digits.simps)
  have j: "join_packs (item_pack bool_element_ops) [[True], [False], [True]] = Inr [True, False, True]"
    by (simp add: bool_element_ops_def)
  have c: "int2 (take 2 [True, False, True, False, True, True, True, True, True, True, True]) = Inr 2"
    by (simp add: int2_def bits_value_def)
  have u: "unpack_counted bool_element_ops ?vt 2
             (drop 2 [True, False, True, False, True, True, True, True, True, True, True])
             = Inr ([[True], [False]], [True, True, True, True, True, True, True])"
    by (simp add: numeral_2_eq_2 bool_element_ops_def)
  from small_element_disables_tao [OF h, of bool_element_ops MODE_DYNAMIC 4 True]
  obtain a where a: "ArrayValue_init bool_element_ops ?vt MODE_DYNAMIC 4 True = Inr a"
    and p: "ArrayValue_pack bool_element_ops (a\<lparr>items := [[True], [False], [True]]\<rparr>) =
               (case count_width bool_element_ops 4 of
                  Inl e \<Rightarrow> Inl e
                | Inr w \<Rightarrow>
                    (case join_packs (item_pack bool_element_ops) [[True], [False], [True]] of
                       Inl e \<Rightarrow> Inl e
                     | Inr bs \<Rightarrow> Inr (format_b (length [[True], [False], [True :: bool]]) w @ bs)))"
    and q: "ArrayValue_unpack bool_element_ops (a\<lparr>items := []\<rparr>)
               [True, False, True, False, True, True, True, True, True, True, True] =
               Some (case count_width bool_element_ops 4 of
                  Inl e \<Rightarrow> Inl e
                | Inr w \<Rightarrow>
                    (case int2 (take w [True, False, True, False, True, True, True, True, True, True, True]) of
                       Inl e \<Rightarrow> Inl e
                     | Inr count \<Rightarrow>
                         (case unpack_counted bool_element_ops ?vt count
                                 (drop w [True, False, True, False, True, True, True, True, True, True, True]) of
                            Inl e \<Rightarrow> Inl e
                          | Inr (its, rest) \<Rightarrow> Inr (a\<lparr>items := its\<rparr>, rest))))"
    by blast
  from a i have e: "a = ?a" by simp
  have "ArrayValue_pack bool_element_ops (?a\<lparr>items := [[True], [False], [True]]\<rparr>)
          = Inr [True, True, True, False, True]"
    using p unfolding e w j by (simp add: f)
  moreover have "ArrayValue_unpack bool_element_ops (?a\<lparr>items := []\<rparr>)
          [True, False, True, False, True, True, True, True, True, True, True]
        = Some (Inr (?a\<lparr>items := [[True], [False]]\<rparr>, [True, True, True, True, True, True, True]))"
    using q unfolding e w sum.case c u by simp
  ultimately show ?thesis using h i by simp
qed

section \<open>Properties of transfers\<close>

subsection \<open>Bits of integers\<close>

lemma bit_3: "bit (3::int) n \<longleftrightarrow> n < 2"
proof -
  have "(3::int) = mask 2" by (simp add: mask_eq_exp_minus_1)
  then show ?thesis by (simp only: bit_mask_iff possible_bit_int simp_thms)
qed

lemma bit_31: "bit (31::int) n \<longleftrightarrow> n < 5"
proof -
  have "(31::int) = mask 5" by (simp add: mask_eq_exp_minus_1)
  then show ?thesis by (simp only: bit_mask_iff possible_bit_int simp_thms)
qed

lemma bit_127: "bit (127::int) n \<longleftrightarrow> n < 7"
proof -
  have "(127::int) = mask 7" by (simp add: mask_eq_exp_minus_1)
  then show ?thesis by (simp only: bit_mask_iff possible_bit_int simp_thms)
qed

lemma bit_255: "bit (255::int) n \<longleftrightarrow> n < 8"
proof -
  have "(255::int) = mask 8" by (simp add: mask_eq_exp_minus_1)
  then show ?thesis by (simp only: bit_mask_iff possible_bit_int simp_thms)
qed

lemma bit_16383: "bit (16383::int) n \<longleftrightarrow> n < 14"
proof -
  have "(16383::int) = mask 14" by (simp add: mask_eq_exp_minus_1)
  then show ?thesis by (simp only: bit_mask_iff possible_bit_int simp_thms)
qed

lemma bit_65535: "bit (65535::int) n \<longleftrightarrow> n < 16"
proof -
  have "(65535::int) = mask 16" by (simp add: mask_eq_exp_minus_1)
  then show ?thesis by (simp only: bit_mask_iff possible_bit_int simp_thms)
qed

lemma bit_32: "bit (32::int) n \<longleftrightarrow> n = 5"
proof -
  have "(32::int) = 2 ^ 5" by simp
  then show ?thesis by (simp only: bit_exp_iff possible_bit_int simp_thms)
qed

lemma bit_64: "bit (64::int) n \<longleftrightarrow> n = 6"
proof -
  have "(64::int) = 2 ^ 6" by simp
  then show ?thesis by (simp only: bit_exp_iff possible_bit_int simp_thms)
qed

lemma bit_128: "bit (128::int) n \<longleftrightarrow> n = 7"
proof -
  have "(128::int) = 2 ^ 7" by simp
  then show ?thesis by (simp only: bit_exp_iff possible_bit_int simp_thms)
qed

lemma bit_32768: "bit (32768::int) n \<longleftrightarrow> n = 15"
proof -
  have "(32768::int) = 2 ^ 15" by simp
  then show ?thesis by (simp only: bit_exp_iff possible_bit_int simp_thms)
qed

lemmas int_bits = bit_eq_iff [where ?'a = int] bit_simps bit_3 bit_31 bit_127 bit_255 bit_16383
  bit_65535 bit_32 bit_64 bit_128 bit_32768

lemma tail_parts:
  fixes a b c tid :: int
  assumes "a = 0 \<or> a = 128" "b = 0 \<or> b = 64" "c = 0 \<or> c = 32"
  shows "(a OR b OR c OR (tid AND 31)) AND 31 = tid AND 31"
    and "(a OR b OR c OR (tid AND 31)) AND 32 = c"
    and "(a OR b OR c OR (tid AND 31)) AND 64 = b"
    and "(a OR b OR c OR (tid AND 31)) AND 128 = a"
    and "take_bit 8 (a OR b OR c OR (tid AND 31)) = a OR b OR c OR (tid AND 31)"
  using assms by (auto simp: int_bits)

lemma toggle_flip: "((t::int) XOR 32) AND 32 = (if t AND 32 = 0 then 32 else 0)"
  by (auto simp: int_bits)

lemma tail_value_parts:
  "tail_value tid n i AND 31 = tid AND 31"
  "tail_value tid n i AND 32 = (if odd i then 32 else 0)"
  "tail_value tid n i AND 64 = (if Suc i = n then 64 else 0)"
  "tail_value tid n i AND 128 = (if i = 0 then 128 else 0)"
  "take_bit 8 (tail_value tid n i) = tail_value tid n i"
  unfolding tail_value_def
  by (rule tail_parts; simp)+

lemma uint_tail_value: "uint (word_of_int (tail_value tid n i) :: 8 word) = tail_value tid n i"
  by (simp add: uint_word_of_int_eq tail_value_parts(5))

subsection \<open>The frames of a transfer\<close>

lemma frame_count_pos: "0 < frame_count p"
  by (cases p) (simp_all add: frame_count_def)

lemma frame_count_short: "length p \<le> 7 \<Longrightarrow> frame_count p = 1"
  by (cases p) (simp_all add: frame_count_def)

lemma frame_count_long: "7 < length p \<Longrightarrow> frame_count p = Suc (frame_count (drop 7 p))"
proof -
  assume a: "7 < length p"
  then have "p \<noteq> []" "drop 7 p \<noteq> []" by auto
  moreover have "(length p + 6) div 7 = Suc ((length p - 7 + 6) div 7)"
    using a by (simp add: le_div_geq)
  ultimately show ?thesis by (simp add: frame_count_def)
qed

lemma frame_loop_nth:
  assumes "tail AND 32 = (if even k then 32 else 0)"
  shows "length (frame_loop mid tid k tail p) = frame_count p \<and>
         (\<forall>j < frame_count p.
            frame_loop mid tid k tail p ! j =
              \<lparr>message_id = mid,
               bytes = take 7 (drop (7 * j) p)
                         @ [word_of_int (tail_value tid (k + frame_count p) (k + j))],
               ts_monotonic = None, ts_real = None\<rparr>)"
  using assms
proof (induction mid tid k tail p rule: frame_loop.induct)
  case (1 mid tid k tail p)
  let ?tail' = "(if k = 0 then 0x80 else 0) OR (if length p \<le> 7 then 0x40 else 0)
                  OR ((tail XOR 0x20) AND 0x20) OR (tid AND 0x1F) :: int"
  have flip: "(tail XOR 32) AND 32 = (if odd k then 32 else 0)"
    using "1.prems" by (simp add: toggle_flip)
  show ?case
  proof (cases "length p \<le> 7")
    case True
    then have cnt: "frame_count p = 1" by (rule frame_count_short)
    have t: "?tail' = tail_value tid (k + 1) k"
      using True flip by (simp add: tail_value_def)
    have "frame_loop mid tid k tail p =
            [\<lparr>message_id = mid, bytes = take 7 p @ [word_of_int ?tail'],
              ts_monotonic = None, ts_real = None\<rparr>]"
      using True by (subst frame_loop.simps) (simp add: Let_def)
    then show ?thesis by (simp add: cnt t)
  next
    case False
    then have long: "7 < length p" by simp
    then have ne: "drop 7 p \<noteq> []" by simp
    have cnt: "frame_count p = Suc (frame_count (drop 7 p))"
      using long by (rule frame_count_long)
    have t: "?tail' = tail_value tid (k + frame_count p) k"
      using False flip frame_count_pos [of "drop 7 p"] by (simp add: tail_value_def cnt)
    have inv: "?tail' AND 32 = (if even (Suc k) then 32 else 0)"
      unfolding t by (simp add: tail_value_parts)
    have unf: "frame_loop mid tid k tail p =
            \<lparr>message_id = mid, bytes = take 7 p @ [word_of_int ?tail'],
              ts_monotonic = None, ts_real = None\<rparr>
            # frame_loop mid tid (Suc k) ?tail' (drop 7 p)"
      using ne by (subst frame_loop.simps) (simp add: Let_def)
    have ih: "length (frame_loop mid tid (Suc k) ?tail' (drop 7 p)) = frame_count (drop 7 p) \<and>
         (\<forall>j < frame_count (drop 7 p).
            frame_loop mid tid (Suc k) ?tail' (drop 7 p) ! j =
              \<lparr>message_id = mid,
               bytes = take 7 (drop (7 * j) (drop 7 p))
                         @ [word_of_int (tail_value tid (Suc k + frame_count (drop 7 p)) (Suc k + j))],
               ts_monotonic = None, ts_real = None\<rparr>)"
      using ne inv by (intro "1.IH" [OF refl refl refl]) simp_all
    show ?thesis
    proof (intro conjI allI impI)
      show "length (frame_loop mid tid k tail p) = frame_count p"
        using ih by (simp add: unf cnt)
    next
      fix j assume j: "j < frame_count p"
      show "frame_loop mid tid k tail p ! j =
              \<lparr>message_id = mid,
               bytes = take 7 (drop (7 * j) p)
                         @ [word_of_int (tail_value tid (k + frame_count p) (k + j))],
               ts_monotonic = None, ts_real = None\<rparr>"
      proof (cases j)
        case 0
        then show ?thesis by (simp add: unf t)
      next
        case (Suc j')
        with j cnt have "j' < frame_count (drop 7 p)" by simp
        with ih have "frame_loop mid tid (Suc k) ?tail' (drop 7 p) ! j' =
              \<lparr>message_id = mid,
               bytes = take 7 (drop (7 * j') (drop 7 p))
                         @ [word_of_int (tail_value tid (Suc k + frame_count (drop 7 p)) (Suc k + j'))],
               ts_monotonic = None, ts_real = None\<rparr>"
          by blast
        then show ?thesis
          unfolding unf Suc by (simp add: cnt add.commute)
      qed
    qed
  qed
qed

lemma and_31_mod: "(x::int) AND 31 = x mod 32"
proof -
  have "(31::int) = mask 5" by (simp add: mask_eq_exp_minus_1)
  then have "x AND 31 = take_bit 5 x" by (simp only: take_bit_eq_mask)
  then show ?thesis by (simp add: take_bit_eq_mod)
qed

lemma tail_value_mod: "tail_value tid n i mod 32 = tid mod 32"
  using tail_value_parts(1) [of tid n i] by (simp only: and_31_mod)

lemma frame_with_tail:
  assumes "f = \<lparr>message_id = mid, bytes = chunk @ [word_of_int (tail_value tid n i)],
                ts_monotonic = None, ts_real = None\<rparr>"
  shows "message_id f = mid"
    and "tail_byte f = tail_value tid n i"
    and "start_of_transfer f = (i = 0)"
    and "end_of_transfer f = (Suc i = n)"
    and "toggle f = odd i"
    and "transfer_key f = (mid, Some (tid mod 32))"
  unfolding assms
  by (simp_all add: tail_byte_def uint_tail_value start_of_transfer_def end_of_transfer_def
        toggle_def transfer_key_def tail_value_parts and_31_mod tail_value_mod)

lemma prepend_crc_result:
  assumes "7 < length p \<longrightarrow> data_type_crc self = Some seed"
  shows "prepend_crc self p =
           Inr (if 7 < length p
                then [word_of_int (crc16_from_bytes p seed AND 0xFF),
                      word_of_int (drop_bit 8 (crc16_from_bytes p seed))] @ p
                else p)"
  using assms by (simp add: prepend_crc_def Let_def)

lemma to_frames_returns:
  assumes "to_frames self = Inr frames"
  shows "\<exists>p wire mid. payload self = Some (Bytes p) \<and> prepend_crc self p = Inr wire \<and>
           get_message_id self = Inr mid \<and> frames = frame_loop mid (transfer_id self) 0 32 wire"
  using assms by (auto simp: to_frames_def split: option.splits payload.splits sum.splits)

text \<open>
  Claim C4. For every transfer that has a payload of bytes \<open>p\<close>, a CRC seed when \<open>p\<close> has more
  than 7 bytes, and fields for which the property \<open>message_id\<close> has a value, \<open>to_frames\<close>
  returns frames, and these are as follows. The payload put on the wire is \<open>p\<close>, with the two
  bytes of its CRC in front, low byte first, when \<open>p\<close> has more than 7 bytes. Frame \<open>i\<close> carries
  the bytes \<open>7i .. 7i + 6\<close> of it (fewer in the last frame) followed by one tail byte, so there
  is one frame for every chunk of 7 bytes (and one frame, of the tail byte alone, when the
  payload is empty). Every frame has the identifier of the transfer; start-of-transfer is
  set in frame 0 only, end-of-transfer in the last frame only, the toggle bit of frame \<open>i\<close> is
  \<open>i mod 2\<close>, and the low 5 bits of every tail byte are the transfer id modulo 32.
\<close>

theorem to_frames_structure:
  assumes "payload self = Some (Bytes p)"
    and "7 < length p \<longrightarrow> data_type_crc self = Some seed"
    and "get_message_id self = Inr mid"
  shows "\<exists>frames wire.
           to_frames self = Inr frames \<and>
           prepend_crc self p = Inr wire \<and>
           wire = (if 7 < length p
                   then [word_of_int (crc16_from_bytes p seed AND 0xFF),
                         word_of_int (drop_bit 8 (crc16_from_bytes p seed))] @ p
                   else p) \<and>
           length frames = (if wire = [] then 1 else (length wire + 6) div 7) \<and>
           (\<forall>i < length frames.
              message_id (frames ! i) = mid \<and>
              bytes (frames ! i) =
                take 7 (drop (7 * i) wire)
                  @ [word_of_int (tail_value (transfer_id self) (length frames) i)] \<and>
              start_of_transfer (frames ! i) = (i = 0) \<and>
              end_of_transfer (frames ! i) = (Suc i = length frames) \<and>
              toggle (frames ! i) = odd i \<and>
              tail_byte (frames ! i) AND 0x1F = transfer_id self mod 32)"
proof -
  define wire where "wire = (if 7 < length p
                   then [word_of_int (crc16_from_bytes p seed AND 0xFF),
                         word_of_int (drop_bit 8 (crc16_from_bytes p seed))] @ p
                   else p)"
  define frames where "frames = frame_loop mid (transfer_id self) 0 32 wire"
  have w: "prepend_crc self p = Inr wire"
    unfolding wire_def using assms(2) by (rule prepend_crc_result)
  have fr: "to_frames self = Inr frames"
    using assms(1,3) w by (simp add: to_frames_def frames_def)
  have loop: "length frames = frame_count wire \<and>
         (\<forall>j < frame_count wire.
            frames ! j =
              \<lparr>message_id = mid,
               bytes = take 7 (drop (7 * j) wire)
                         @ [word_of_int (tail_value (transfer_id self) (0 + frame_count wire) (0 + j))],
               ts_monotonic = None, ts_real = None\<rparr>)"
    unfolding frames_def by (rule frame_loop_nth) simp
  then have len: "length frames = frame_count wire" by simp
  have each: "\<forall>i < length frames.
              message_id (frames ! i) = mid \<and>
              bytes (frames ! i) =
                take 7 (drop (7 * i) wire)
                  @ [word_of_int (tail_value (transfer_id self) (length frames) i)] \<and>
              start_of_transfer (frames ! i) = (i = 0) \<and>
              end_of_transfer (frames ! i) = (Suc i = length frames) \<and>
              toggle (frames ! i) = odd i \<and>
              tail_byte (frames ! i) AND 0x1F = transfer_id self mod 32"
  proof (intro allI impI)
    fix i assume "i < length frames"
    with loop len have f: "frames ! i =
              \<lparr>message_id = mid,
               bytes = take 7 (drop (7 * i) wire)
                         @ [word_of_int (tail_value (transfer_id self) (length frames) i)],
               ts_monotonic = None, ts_real = None\<rparr>"
      by simp
    show "message_id (frames ! i) = mid \<and>
              bytes (frames ! i) =
                take 7 (drop (7 * i) wire)
                  @ [word_of_int (tail_value (transfer_id self) (length frames) i)] \<and>
              start_of_transfer (frames ! i) = (i = 0) \<and>
              end_of_transfer (frames ! i) = (Suc i = length frames) \<and>
              toggle (frames ! i) = odd i \<and>
              tail_byte (frames ! i) AND 0x1F = transfer_id self mod 32"
      using frame_with_tail [OF f] f by (simp add: and_31_mod tail_value_mod)
  qed
  have "length frames = (if wire = [] then 1 else (length wire + 6) div 7)"
    using len by (simp add: frame_count_def)
  with fr w each wire_def show ?thesis by blast
qed

theorem to_frames_structure_witness:
  "payload example_transfer = Some (Bytes [1, 2, 3, 4, 5, 6, 7, 8]) \<and>
   7 < length [1, 2, 3, 4, 5, 6, 7, 8 :: 8 word] \<and>
   data_type_crc example_transfer = Some 0xFFFF \<and>
   get_message_id example_transfer = Inr 268522794 \<and>
   (\<exists>frames. to_frames example_transfer = Inr frames \<and> length frames = 2 \<and>
      message_id (frames ! 0) = 268522794 \<and> bytes (frames ! 0) = [146, 71, 1, 2, 3, 4, 5, 133] \<and>
      message_id (frames ! 1) = 268522794 \<and> bytes (frames ! 1) = [6, 7, 8, 101] \<and>
      start_of_transfer (frames ! 0) \<and> \<not> start_of_transfer (frames ! 1) \<and>
      \<not> end_of_transfer (frames ! 0) \<and> end_of_transfer (frames ! 1) \<and>
      \<not> toggle (frames ! 0) \<and> toggle (frames ! 1))"
proof -
  let ?p = "[1, 2, 3, 4, 5, 6, 7, 8 :: 8 word]"
  have 1: "payload example_transfer = Some (Bytes ?p)"
    by (simp add: example_transfer_def)
  have 2: "7 < length ?p \<longrightarrow> data_type_crc example_transfer = Some 0xFFFF"
    by (simp add: example_transfer_def)
  have 3: "get_message_id example_transfer = Inr 268522794"
    by (simp add: example_transfer_def get_message_id_def)
  have c: "crc16_from_bytes ?p 0xFFFF = 18322"
    by code_simp
  from to_frames_structure [OF 1 2 3] obtain frames wire where
    fr: "to_frames example_transfer = Inr frames"
    and w: "wire = (if 7 < length ?p
                   then [word_of_int (crc16_from_bytes ?p 0xFFFF AND 0xFF),
                         word_of_int (drop_bit 8 (crc16_from_bytes ?p 0xFFFF))] @ ?p
                   else ?p)"
    and len: "length frames = (if wire = [] then 1 else (length wire + 6) div 7)"
    and each: "\<forall>i < length frames.
              message_id (frames ! i) = 268522794 \<and>
              bytes (frames ! i) =
                take 7 (drop (7 * i) wire)
                  @ [word_of_int (tail_value (transfer_id example_transfer) (length frames) i)] \<and>
              start_of_transfer (frames ! i) = (i = 0) \<and>
              end_of_transfer (frames ! i) = (Suc i = length frames) \<and>
              toggle (frames ! i) = odd i"
    by blast
  have w': "wire = [146, 71, 1, 2, 3, 4, 5, 6, 7, 8]"
    unfolding w c by simp
  have l: "length frames = 2" using len by (simp add: w')
  have tid: "transfer_id example_transfer = 37" by (simp add: example_transfer_def)
  have f0: "message_id (frames ! 0) = 268522794 \<and> bytes (frames ! 0) = [146, 71, 1, 2, 3, 4, 5, 133] \<and>
            start_of_transfer (frames ! 0) \<and> \<not> end_of_transfer (frames ! 0) \<and> \<not> toggle (frames ! 0)"
    using each [rule_format, of 0] l by (simp add: w' tid tail_value_def)
  have f1: "message_id (frames ! 1) = 268522794 \<and> bytes (frames ! 1) = [6, 7, 8, 101] \<and>
            \<not> start_of_transfer (frames ! 1) \<and> end_of_transfer (frames ! 1) \<and> toggle (frames ! 1)"
    using each [rule_format, of 1] l by (simp add: w' tid tail_value_def)
  from fr l f0 f1 have "\<exists>frames. to_frames example_transfer = Inr frames \<and> length frames = 2 \<and>
      message_id (frames ! 0) = 268522794 \<and> bytes (frames ! 0) = [146, 71, 1, 2, 3, 4, 5, 133] \<and>
      message_id (frames ! 1) = 268522794 \<and> bytes (frames ! 1) = [6, 7, 8, 101] \<and>
      start_of_transfer (frames ! 0) \<and> \<not> start_of_transfer (frames ! 1) \<and>
      \<not> end_of_transfer (frames ! 0) \<and> end_of_transfer (frames ! 1) \<and>
      \<not> toggle (frames ! 0) \<and> toggle (frames ! 1)"
    by blast
  moreover have "7 < length ?p" "data_type_crc example_transfer = Some 0xFFFF"
    by (simp_all add: example_transfer_def)
  ultimately show ?thesis using 1 3 by (simp only: simp_thms)
qed

end
